theory Spec2Isabelle
  imports Complex_Main "HOL-Library.Char_ord" "HOL-Library.List_Lexorder" "HOL-Library.Sublist"
begin

section \<open>The VS Code configurator for a ROS 2 workspace (setup_vscode.py)\<close>

text \<open>
  The script discovers import directories and locally built packages, then merges them into
  \<^verbatim>\<open>.vscode/settings.json\<close> and \<^verbatim>\<open>pyproject.toml\<close>. Strings are byte lists; their order is
  the lexicographic order of the bytes, which on UTF-8 text is Python's code-point order.
\<close>

subsection \<open>Strings and paths\<close>

text \<open>\<^verbatim>\<open>str(n)\<close> for a non-negative integer, as an f-string formats it.\<close>

fun str_nat :: "nat \<Rightarrow> string" where
  "str_nat n =
     (if n < 10 then [char_of (48 + n)]
      else str_nat (n div 10) @ [char_of (48 + n mod 10)])"

declare str_nat.simps [simp del]

text \<open>\<^verbatim>\<open>s.split(sep)\<close> for a one-character separator: never empty, keeps empty fields.\<close>

fun split :: "char \<Rightarrow> string \<Rightarrow> string list" where
  "split sep [] = [[]]"
| "split sep (c # cs) =
     (if c = sep then [] # split sep cs
      else (case split sep cs of [] \<Rightarrow> [[c]] | x # xs \<Rightarrow> (c # x) # xs))"

text \<open>\<^verbatim>\<open>sep.join(xs)\<close>.\<close>

fun join :: "string \<Rightarrow> string list \<Rightarrow> string" where
  "join sep [] = []"
| "join sep [x] = x"
| "join sep (x # y # ys) = x @ sep @ join sep (y # ys)"

text \<open>
  \<^verbatim>\<open>str(Path(s))\<close> on POSIX: the root is \<^verbatim>\<open>/\<close>, or \<^verbatim>\<open>//\<close> for exactly two leading slashes;
  empty and \<^verbatim>\<open>.\<close> components are dropped; the empty path prints as \<^verbatim>\<open>.\<close>.
\<close>

definition path_root :: "string \<Rightarrow> string" where
  "path_root s =
     (if take 1 s \<noteq> ''/'' then ''''
      else if take 1 (drop 1 s) \<noteq> ''/'' \<or> take 1 (drop 2 s) = ''/'' then ''/''
      else ''//'')"

definition path_parts :: "string \<Rightarrow> string list" where
  "path_parts s = filter (\<lambda>x. x \<noteq> [] \<and> x \<noteq> ''.'') (split CHR ''/'' s)"

definition path_str :: "string \<Rightarrow> string" where
  "path_str s =
     (let r = path_root s; t = join ''/'' (path_parts s)
      in if r = [] \<and> t = [] then ''.'' else r @ t)"

text \<open>\<^verbatim>\<open>posixpath.join(a, b)\<close>, and the operator \<^verbatim>\<open>Path(a) / b\<close> printed with \<^verbatim>\<open>str\<close>.\<close>

definition posix_join :: "string \<Rightarrow> string \<Rightarrow> string" where
  "posix_join a b =
     (if take 1 b = ''/'' then b
      else if a = [] \<or> (a \<noteq> [] \<and> last a = CHR ''/'') then a @ b
      else a @ ''/'' @ b)"

definition pdiv :: "string \<Rightarrow> string \<Rightarrow> string" where
  "pdiv a b = path_str (posix_join a b)"

subsection \<open>Documents, files and the process environment\<close>

text \<open>
  A parsed JSON or TOML value. A dictionary keeps insertion order, as Python's \<^verbatim>\<open>dict\<close> does;
  a finite float is carried by its exact value, a rational.
\<close>

datatype pyval =
    PNone
  | PBool bool
  | PInt int
  | PFloat rat
  | PStr string
  | PList "pyval list"
  | PDict "(string \<times> pyval) list"

text \<open>
  The text of a file is represented by what the parsers make of it. \<open>Json v\<close> is text that
  \<^verbatim>\<open>json.load\<close> parses to \<open>v\<close>; \<^verbatim>\<open>json.dump\<close> writes such a text for \<open>v\<close> (the keys are strings
  and keep their order). \<open>Toml t\<close> is text that \<^verbatim>\<open>toml.load\<close> parses to \<open>t\<close>. \<open>Toml_dump t\<close> is the
  text that \<^verbatim>\<open>toml.dump\<close> writes for \<open>t\<close>: what \<^verbatim>\<open>toml.load\<close> makes of that text is a matter of
  the installed library and need not be \<open>t\<close> (it is not for a string with a control
  character). \<open>Garbage\<close> is text that neither parser accepts, such as a text that was
  cut off.
\<close>

datatype content =
    Garbage
  | Json pyval
  | Toml "(string \<times> pyval) list"
  | Toml_dump "(string \<times> pyval) list"

datatype node = Dir | File content

datatype error =
  OSError | JSONDecodeError | TomlDecodeError | TypeError | AttributeError | RecursionError

text \<open>
  How a write can fail: \<^verbatim>\<open>open(p, 'w')\<close> raises and the file stays as it is, or the dump
  raises after \<^verbatim>\<open>open\<close> has truncated the file (a full disk, a document nested deeper than
  the recursion limit) and the file is left with the text written so far.
\<close>

datatype fault = Open_raises | Dump_raises error content

record world =
  argv :: "string list"
  cwd :: string
  environ :: "string \<Rightarrow> string option"
  executable :: string
  version_major :: nat
  version_minor :: nat
  nodes :: "string \<Rightarrow> node option"
  entries :: "string \<Rightarrow> string list option"
  stat_raises :: "string \<Rightarrow> bool"
  unreadable :: "string \<Rightarrow> bool"
  unwritable :: "string \<Rightarrow> bool"
  write_fault :: "string \<Rightarrow> content \<Rightarrow> fault option"
  toml_reload :: "(string \<times> pyval) list \<Rightarrow> error + (string \<times> pyval) list"

text \<open>
  \<open>nodes\<close> maps the printed form of a path to what is there; \<open>entries d\<close> is what
  \<^verbatim>\<open>os.listdir\<close> gives for \<open>d\<close>, in the order of the disk (\<open>None\<close>: the listing raises).
  \<open>stat_raises\<close> holds the paths whose \<^verbatim>\<open>stat\<close> fails with an error that \<^verbatim>\<open>Path.is_dir\<close> does not
  swallow (a name longer than the system allows, a directory on the way that may not be
  searched). \<open>unreadable\<close> holds the paths on which \<^verbatim>\<open>open\<close> raises for reading.
  \<open>unwritable\<close> holds the paths at which a write can fail (and a directory cannot be
  created); what happens to the write of a given text there is \<open>write_fault\<close>, and a write
  at any other path succeeds. \<open>toml_reload t\<close> is what \<^verbatim>\<open>toml.load\<close> returns, or raises, on the
  text that \<^verbatim>\<open>toml.dump\<close> wrote for \<open>t\<close>. The working directory is taken to exist, and a
  relative path is looked up as it is printed.
\<close>

text \<open>
  \<^verbatim>\<open>Path(p).is_dir()\<close>: \<^verbatim>\<open>False\<close> for a path that is missing or not a directory, and the
  \<^verbatim>\<open>OSError\<close> of \<^verbatim>\<open>stat\<close> when it is one that the method passes on.
\<close>

definition is_dir :: "world \<Rightarrow> string \<Rightarrow> error + bool" where
  "is_dir w p = (if stat_raises w p then Inl OSError else Inr (nodes w p = Some Dir))"

text \<open>
  \<^verbatim>\<open>Path(p).exists()\<close>. The script asks it of the two documents only, directly below the
  working directory and below \<^verbatim>\<open>.vscode\<close> once \<^verbatim>\<open>mkdir\<close> has returned; the \<^verbatim>\<open>stat\<close> of these two
  is taken to succeed or to find nothing.
\<close>

definition exists_path :: "world \<Rightarrow> string \<Rightarrow> bool" where
  "exists_path w p = (nodes w p \<noteq> None)"

text \<open>The fixed places below the workspace root.\<close>

definition install_dir :: "string \<Rightarrow> string" where
  "install_dir workspace_root = pdiv workspace_root ''install''"

definition settings_dir :: "string \<Rightarrow> string" where
  "settings_dir workspace_root = pdiv workspace_root ''.vscode''"

definition settings_file :: "string \<Rightarrow> string" where
  "settings_file workspace_root = pdiv (settings_dir workspace_root) ''settings.json''"

definition toml_file :: "string \<Rightarrow> string" where
  "toml_file workspace_root = pdiv workspace_root ''pyproject.toml''"

subsection \<open>Discovery\<close>

definition get_python_version_string :: "world \<Rightarrow> string" where
  "get_python_version_string w =
     ''python'' @ str_nat (version_major w) @ ''.'' @ str_nat (version_minor w)"

abbreviation spaces :: "nat \<Rightarrow> string" where
  "spaces n \<equiv> replicate n CHR '' ''"

text \<open>
  The three toolchain candidates. A backslash before the line end inside the literal joins
  the lines, so the indentation of the continuation lines is part of the string; the first
  template also holds a closing bracket, and in the third the backslash before the brace
  stays in the string.
\<close>

definition base_ros_path :: "world \<Rightarrow> string \<Rightarrow> string" where
  "base_ros_path w ros_distro =
     path_str (''/opt/ros/'' @ ros_distro @ ''/lib/python'' @ spaces 29
       @ str_nat (version_major w) @ ''.'' @ str_nat (version_minor w) @ '']''
       @ spaces 29 @ ''/site-packages'')"

definition dist_packages_path :: "world \<Rightarrow> string \<Rightarrow> string" where
  "dist_packages_path w ros_distro =
     path_str (''/opt/ros/'' @ ros_distro @ ''/lib/python'' @ spaces 34
       @ str_nat (version_major w) @ ''.'' @ spaces 36
       @ str_nat (version_minor w) @ ''/dist-packages'')"

definition system_site_packages :: "string \<Rightarrow> string \<Rightarrow> string" where
  "system_site_packages python_version ros_distro =
     path_str (''/opt/ros/'' @ [CHR 0x5C] @ ros_distro @ ''/lib/'' @ python_version
       @ ''/site-packages'')"

text \<open>
  \<^verbatim>\<open>if p.is_dir(): python_paths.append(str(p))\<close>, where the check can raise; and a loop
  over such steps, which stops at the first exception.
\<close>

definition append_if_dir :: "world \<Rightarrow> string \<Rightarrow> string list \<Rightarrow> error + string list" where
  "append_if_dir w p python_paths =
     (case is_dir w p of
        Inl e \<Rightarrow> Inl e
      | Inr b \<Rightarrow> Inr (if b then python_paths @ [p] else python_paths))"

fun try_fold :: "('a \<Rightarrow> 'b \<Rightarrow> error + 'b) \<Rightarrow> 'a list \<Rightarrow> 'b \<Rightarrow> error + 'b" where
  "try_fold f [] s = Inr s"
| "try_fold f (x # xs) s = (case f x s of Inl e \<Rightarrow> Inl e | Inr s' \<Rightarrow> try_fold f xs s')"

definition toolchain_paths :: "world \<Rightarrow> string \<Rightarrow> string \<Rightarrow> error + string list" where
  "toolchain_paths w python_version ros_distro =
     (if ros_distro \<noteq> [] then
        try_fold (append_if_dir w)
          [base_ros_path w ros_distro, dist_packages_path w ros_distro,
           system_site_packages python_version ros_distro] []
      else Inr [])"

definition possible_paths :: "world \<Rightarrow> string \<Rightarrow> string \<Rightarrow> string list" where
  "possible_paths w python_version package_dir =
     [pdiv package_dir (''lib/'' @ python_version @ ''/site-packages''),
      pdiv package_dir (''lib/python'' @ spaces 12 @ str_nat (version_major w) @ ''.''
        @ str_nat (version_minor w) @ ''/site-packages''),
      pdiv package_dir ''lib'']"

text \<open>
  The loop over \<^verbatim>\<open>install_dir.iterdir()\<close>: the state is the pair of the two lists.
  \<open>name\<close> is a directory entry, so \<^verbatim>\<open>package_dir.name\<close> is \<open>name\<close> itself.
\<close>

fun scan_install ::
  "world \<Rightarrow> string \<Rightarrow> string \<Rightarrow> string list \<Rightarrow> string list \<times> string list
    \<Rightarrow> error + (string list \<times> string list)" where
  "scan_install w python_version install [] acc = Inr acc"
| "scan_install w python_version install (name # names) (python_paths, local_packages) =
     (let package_dir = pdiv install name
      in case is_dir w package_dir of
           Inl e \<Rightarrow> Inl e
         | Inr False \<Rightarrow>
             scan_install w python_version install names (python_paths, local_packages)
         | Inr True \<Rightarrow>
             (case try_fold (append_if_dir w) (possible_paths w python_version package_dir)
                     python_paths of
                Inl e \<Rightarrow> Inl e
              | Inr python_paths' \<Rightarrow>
                  scan_install w python_version install names
                    (python_paths', local_packages @ [name])))"

text \<open>
  The entries of \<^verbatim>\<open>PYTHONPATH\<close>: an empty entry is not checked; the raw entry is appended,
  the check is on its path.
\<close>

definition env_step :: "world \<Rightarrow> string \<Rightarrow> string list \<Rightarrow> error + string list" where
  "env_step w p python_paths =
     (if p \<noteq> [] then
        (case is_dir w (path_str p) of
           Inl e \<Rightarrow> Inl e
         | Inr b \<Rightarrow> Inr (if b then python_paths @ [p] else python_paths))
      else Inr python_paths)"

definition scan_pythonpath :: "world \<Rightarrow> string list \<Rightarrow> error + string list" where
  "scan_pythonpath w python_paths =
     (let python_path_env = (case environ w ''PYTHONPATH'' of None \<Rightarrow> [] | Some v \<Rightarrow> v)
      in if python_path_env \<noteq> []
         then try_fold (env_step w) (split CHR '':'' python_path_env) python_paths
         else Inr python_paths)"

text \<open>The de-duplication loop with its \<^verbatim>\<open>seen\<close> set.\<close>

fun unique_loop :: "'a list \<Rightarrow> 'a set \<Rightarrow> 'a list \<Rightarrow> 'a list" where
  "unique_loop [] seen unique_paths = unique_paths"
| "unique_loop (p # ps) seen unique_paths =
     (if p \<notin> seen then unique_loop ps (insert p seen) (unique_paths @ [p])
      else unique_loop ps seen unique_paths)"

text \<open>
  \<^verbatim>\<open>sorted(list(set(xs)))\<close> on strings. The iteration order of a Python set is arbitrary;
  sorting distinct strings gives the same list from every order
  (lemma \<open>sorted_set_any_order\<close>).
\<close>

definition sorted_set :: "string list \<Rightarrow> string list" where
  "sorted_set xs = sort (remdups xs)"

text \<open>The list accumulated before de-duplication, when the install directory is listed.\<close>

definition accumulated_paths ::
  "world \<Rightarrow> string \<Rightarrow> string \<Rightarrow> string \<Rightarrow> string list \<Rightarrow> error + string list" where
  "accumulated_paths w workspace_root python_version ros_distro names =
     (case toolchain_paths w python_version ros_distro of
        Inl e \<Rightarrow> Inl e
      | Inr python_paths \<Rightarrow>
          (case scan_install w python_version (install_dir workspace_root) names
                  (python_paths, []) of
             Inl e \<Rightarrow> Inl e
           | Inr (python_paths, local_packages) \<Rightarrow> scan_pythonpath w python_paths))"

text \<open>An exception of a directory check or of the listing leaves the function.\<close>

definition find_paths_and_packages ::
  "world \<Rightarrow> string \<Rightarrow> string \<Rightarrow> string \<Rightarrow> error + (string list \<times> string list)" where
  "find_paths_and_packages w workspace_root python_version ros_distro =
     (case toolchain_paths w python_version ros_distro of
        Inl e \<Rightarrow> Inl e
      | Inr python_paths \<Rightarrow>
          (let install = install_dir workspace_root
           in case is_dir w install of
                Inl e \<Rightarrow> Inl e
              | Inr False \<Rightarrow> Inr ([], [])
              | Inr True \<Rightarrow>
                  (case entries w install of
                     None \<Rightarrow> Inl OSError
                   | Some names \<Rightarrow>
                       (case scan_install w python_version install names (python_paths, []) of
                          Inl e \<Rightarrow> Inl e
                        | Inr (python_paths, local_packages) \<Rightarrow>
                            (case scan_pythonpath w python_paths of
                               Inl e \<Rightarrow> Inl e
                             | Inr python_paths \<Rightarrow>
                                 Inr (unique_loop python_paths {} [],
                                      sorted_set local_packages))))))"

subsection \<open>Dictionaries and Python's comparison of values\<close>

text \<open>\<^verbatim>\<open>d[k] = v\<close>: an existing key keeps its place, a new key goes to the end.\<close>

fun dict_set :: "(string \<times> 'v) list \<Rightarrow> string \<Rightarrow> 'v \<Rightarrow> (string \<times> 'v) list" where
  "dict_set [] k v = [(k, v)]"
| "dict_set ((a, b) # d) k v = (if a = k then (a, v) # d else (a, b) # dict_set d k v)"

fun hashable :: "pyval \<Rightarrow> bool" where
  "hashable (PList _) = False"
| "hashable (PDict _) = False"
| "hashable _ = True"

fun num_val :: "pyval \<Rightarrow> rat option" where
  "num_val (PBool b) = Some (if b then 1 else 0)"
| "num_val (PInt n) = Some (of_int n)"
| "num_val (PFloat q) = Some q"
| "num_val _ = None"

fun str_val :: "pyval \<Rightarrow> string option" where
  "str_val (PStr s) = Some s"
| "str_val _ = None"

text \<open>\<^verbatim>\<open>==\<close> on hashable values: numbers by value, strings by content.\<close>

definition py_eq :: "pyval \<Rightarrow> pyval \<Rightarrow> bool" where
  "py_eq x y =
     (case (num_val x, num_val y) of
        (Some a, Some b) \<Rightarrow> a = b
      | (None, None) \<Rightarrow> x = y
      | _ \<Rightarrow> False)"

text \<open>\<^verbatim>\<open>set(xs)\<close> keeps the first of equal elements.\<close>

abbreviation set_step :: "pyval \<Rightarrow> pyval list \<Rightarrow> pyval list" where
  "set_step \<equiv> (\<lambda>x acc. if list_ex (py_eq x) acc then acc else acc @ [x])"

definition py_set :: "pyval list \<Rightarrow> pyval list" where
  "py_set xs = fold set_step xs []"

text \<open>
  \<^verbatim>\<open>sorted(list(set(xs)))\<close>: \<^verbatim>\<open>set\<close> raises on an unhashable element; \<^verbatim>\<open>sorted\<close> raises when
  it has to compare values that have no order (a string with a number, \<^verbatim>\<open>None\<close>).
\<close>

definition py_sorted_set :: "pyval list \<Rightarrow> error + pyval list" where
  "py_sorted_set xs =
     (if \<not> list_all hashable xs then Inl TypeError
      else let u = py_set xs
           in if length u \<le> 1 then Inr u
              else if list_all (\<lambda>x. str_val x \<noteq> None) u
                then Inr (map PStr (sort (map (the \<circ> str_val) u)))
              else if list_all (\<lambda>x. num_val x \<noteq> None) u
                then Inr (sort_key (the \<circ> num_val) u)
              else Inl TypeError)"

subsection \<open>Files\<close>

datatype event =
    Banner
  | Missing_argument
  | Using_distro string
  | Using_interpreter string
  | Workspace_root string
  | Python_version string
  | No_packages_found
  | Skipping_cmake
  | Finished
  | Settings_corrupted string
  | Settings_updated string
  | Settings_write_error string error
  | Pyproject_not_found string
  | Pyproject_updated string
  | Pyproject_error string error

text \<open>
  The lines printed by the writers and by \<^verbatim>\<open>main\<close>, one constructor per message. The
  progress lines of discovery change no state and are left out.
\<close>

text \<open>\<^verbatim>\<open>open(p, 'r')\<close> and the parser on what is read.\<close>

definition open_read :: "world \<Rightarrow> string \<Rightarrow> error + content" where
  "open_read w p =
     (case nodes w p of
        None \<Rightarrow> Inl OSError
      | Some Dir \<Rightarrow> Inl OSError
      | Some (File c) \<Rightarrow> if unreadable w p then Inl OSError else Inr c)"

definition json_load :: "world \<Rightarrow> string \<Rightarrow> error + pyval" where
  "json_load w p =
     (case open_read w p of
        Inl e \<Rightarrow> Inl e
      | Inr (Json v) \<Rightarrow> Inr v
      | Inr _ \<Rightarrow> Inl JSONDecodeError)"

definition toml_load :: "world \<Rightarrow> string \<Rightarrow> error + (string \<times> pyval) list" where
  "toml_load w p =
     (case open_read w p of
        Inl e \<Rightarrow> Inl e
      | Inr (Toml t) \<Rightarrow> Inr t
      | Inr (Toml_dump t) \<Rightarrow> toml_reload w t
      | Inr _ \<Rightarrow> Inl TomlDecodeError)"

text \<open>
  \<^verbatim>\<open>with p.open('w') as f:\<close> followed by the dump of a document, whose text is \<open>c\<close>: the
  exception raised, if any, and the world it leaves. \<^verbatim>\<open>open\<close> truncates the file, so a dump
  that raises leaves the file cut off.
\<close>

definition write_file :: "world \<Rightarrow> string \<Rightarrow> content \<Rightarrow> error option \<times> world" where
  "write_file w p c =
     (if nodes w p = Some Dir then (Some OSError, w)
      else if unwritable w p then
        (case write_fault w p c of
           None \<Rightarrow> (None, w\<lparr>nodes := (nodes w)(p \<mapsto> File c)\<rparr>)
         | Some Open_raises \<Rightarrow> (Some OSError, w)
         | Some (Dump_raises e left) \<Rightarrow> (Some e, w\<lparr>nodes := (nodes w)(p \<mapsto> File left)\<rparr>))
      else (None, w\<lparr>nodes := (nodes w)(p \<mapsto> File c)\<rparr>))"

text \<open>\<^verbatim>\<open>p.mkdir(exist_ok=True)\<close>: an existing directory is accepted, an existing file is not.\<close>

definition mkdir_exist_ok :: "world \<Rightarrow> string \<Rightarrow> error + world" where
  "mkdir_exist_ok w p =
     (case nodes w p of
        Some Dir \<Rightarrow> Inr w
      | Some (File _) \<Rightarrow> Inl OSError
      | None \<Rightarrow> if unwritable w p then Inl OSError
                else Inr (w\<lparr>nodes := (nodes w)(p \<mapsto> Dir)\<rparr>))"

subsection \<open>The settings writer\<close>

definition owned_keys :: "string list" where
  "owned_keys =
     [''python.defaultInterpreterPath'', ''python.analysis.extraPaths'',
      ''python.autoComplete.extraPaths'', ''python.analysis.typeCheckingMode'',
      ''python.analysis.diagnosticMode'', ''cmake.configureOnOpen'']"

text \<open>The six assignments, in the order of the source.\<close>

definition set_owned_keys ::
  "(string \<times> pyval) list \<Rightarrow> string list \<Rightarrow> string \<Rightarrow> (string \<times> pyval) list" where
  "set_owned_keys settings_data python_paths interpreter_path =
     (let d = dict_set settings_data ''python.defaultInterpreterPath'' (PStr interpreter_path);
          d = dict_set d ''python.analysis.extraPaths'' (PList (map PStr python_paths));
          d = dict_set d ''python.autoComplete.extraPaths'' (PList (map PStr python_paths));
          d = dict_set d ''python.analysis.typeCheckingMode'' (PStr ''basic'');
          d = dict_set d ''python.analysis.diagnosticMode'' (PStr ''openFilesOnly'');
          d = dict_set d ''cmake.configureOnOpen'' (PBool False)
      in d)"

text \<open>
  The read of the existing document: only \<^verbatim>\<open>JSONDecodeError\<close> is handled, by a warning and
  an empty document; any other exception of \<^verbatim>\<open>open\<close> or \<^verbatim>\<open>json.load\<close> leaves the function.
\<close>

definition read_settings :: "world \<Rightarrow> string \<Rightarrow> error + (pyval \<times> event list)" where
  "read_settings w file =
     (if exists_path w file
      then (case json_load w file of
              Inl JSONDecodeError \<Rightarrow> Inr (PDict [], [Settings_corrupted file])
            | Inl e \<Rightarrow> Inl e
            | Inr v \<Rightarrow> Inr (v, []))
      else Inr (PDict [], []))"

text \<open>
  The result is the exception that left the function, if any, with the world at that
  moment and the lines printed. An item assignment on a parsed value that is not a
  dictionary raises \<^verbatim>\<open>TypeError\<close>; a failure of the write is caught and printed.
\<close>

definition update_vscode_settings ::
  "world \<Rightarrow> string \<Rightarrow> string list \<Rightarrow> string \<Rightarrow> error option \<times> world \<times> event list" where
  "update_vscode_settings w workspace_root python_paths interpreter_path =
     (case mkdir_exist_ok w (settings_dir workspace_root) of
        Inl e \<Rightarrow> (Some e, w, [])
      | Inr w1 \<Rightarrow>
          (case read_settings w1 (settings_file workspace_root) of
             Inl e \<Rightarrow> (Some e, w1, [])
           | Inr (PDict settings_data, out) \<Rightarrow>
               (case write_file w1 (settings_file workspace_root)
                       (Json (PDict (set_owned_keys settings_data python_paths interpreter_path))) of
                  (Some e, w2) \<Rightarrow>
                    (None, w2, out @ [Settings_write_error (settings_file workspace_root) e])
                | (None, w2) \<Rightarrow>
                    (None, w2, out @ [Settings_updated (settings_file workspace_root)]))
           | Inr (_, out) \<Rightarrow> (Some TypeError, w1, out)))"

subsection \<open>The lint-config writer\<close>

text \<open>
  \<^verbatim>\<open>d.setdefault(k, {})\<close> followed by a method call on the result: the table under \<open>k\<close>,
  empty when the key is new; a value that is not a dictionary has neither \<^verbatim>\<open>setdefault\<close>
  nor \<^verbatim>\<open>get\<close>.
\<close>

definition table_at :: "(string \<times> pyval) list \<Rightarrow> string \<Rightarrow> error + (string \<times> pyval) list" where
  "table_at d k =
     (case map_of d k of
        None \<Rightarrow> Inr []
      | Some (PDict t) \<Rightarrow> Inr t
      | Some _ \<Rightarrow> Inl AttributeError)"

text \<open>\<^verbatim>\<open>sorted(list(set(known_first_party + local_packages)))\<close>\<close>

definition updated_list :: "pyval \<Rightarrow> string list \<Rightarrow> error + pyval list" where
  "updated_list known_first_party local_packages =
     (case known_first_party of
        PList xs \<Rightarrow> py_sorted_set (xs @ map PStr local_packages)
      | _ \<Rightarrow> Inl TypeError)"

text \<open>
  The value the writer reads as \<^verbatim>\<open>known_first_party\<close>: the list under
  \<^verbatim>\<open>tool.ruff.lint.isort\<close>, empty when the key or a table on the way is missing.
\<close>

definition stored_first_party :: "(string \<times> pyval) list \<Rightarrow> error + pyval" where
  "stored_first_party toml_data =
     (case table_at toml_data ''tool'' of Inl e \<Rightarrow> Inl e | Inr tool_section \<Rightarrow>
      case table_at tool_section ''ruff'' of Inl e \<Rightarrow> Inl e | Inr ruff_section \<Rightarrow>
      case table_at ruff_section ''lint'' of Inl e \<Rightarrow> Inl e | Inr lint_section \<Rightarrow>
      case table_at lint_section ''isort'' of Inl e \<Rightarrow> Inl e | Inr isort_section \<Rightarrow>
        Inr (case map_of isort_section ''known-first-party'' of
               None \<Rightarrow> PList [] | Some v \<Rightarrow> v))"

text \<open>
  The body of the \<^verbatim>\<open>try\<close> between the read and the write. The four sections are
  references into \<^verbatim>\<open>toml_data\<close>, so the assignment to the innermost one shows in the
  document; here the document is rebuilt from the inside out.
\<close>

definition merge_first_party ::
  "(string \<times> pyval) list \<Rightarrow> string list \<Rightarrow> error + (string \<times> pyval) list" where
  "merge_first_party toml_data local_packages =
     (case table_at toml_data ''tool'' of Inl e \<Rightarrow> Inl e | Inr tool_section \<Rightarrow>
      case table_at tool_section ''ruff'' of Inl e \<Rightarrow> Inl e | Inr ruff_section \<Rightarrow>
      case table_at ruff_section ''lint'' of Inl e \<Rightarrow> Inl e | Inr lint_section \<Rightarrow>
      case table_at lint_section ''isort'' of Inl e \<Rightarrow> Inl e | Inr isort_section \<Rightarrow>
      case updated_list
             (case map_of isort_section ''known-first-party'' of
                None \<Rightarrow> PList [] | Some v \<Rightarrow> v) local_packages of
        Inl e \<Rightarrow> Inl e
      | Inr l \<Rightarrow>
          (let isort_section = dict_set isort_section ''known-first-party'' (PList l);
               lint_section = dict_set lint_section ''isort'' (PDict isort_section);
               ruff_section = dict_set ruff_section ''lint'' (PDict lint_section);
               tool_section = dict_set tool_section ''ruff'' (PDict ruff_section)
           in Inr (dict_set toml_data ''tool'' (PDict tool_section))))"

text \<open>Every exception of the \<^verbatim>\<open>try\<close> block is caught and printed, so none leaves.\<close>

definition update_pyproject_toml ::
  "world \<Rightarrow> string \<Rightarrow> string list \<Rightarrow> world \<times> event list" where
  "update_pyproject_toml w workspace_root local_packages =
     (let file = toml_file workspace_root
      in if \<not> exists_path w file then (w, [Pyproject_not_found workspace_root])
         else case toml_load w file of
                Inl e \<Rightarrow> (w, [Pyproject_error file e])
              | Inr toml_data \<Rightarrow>
                  (case merge_first_party toml_data local_packages of
                     Inl e \<Rightarrow> (w, [Pyproject_error file e])
                   | Inr t \<Rightarrow>
                       (case write_file w file (Toml_dump t) of
                          (Some e, w') \<Rightarrow> (w', [Pyproject_error file e])
                        | (None, w') \<Rightarrow> (w', [Pyproject_updated file]))))"

subsection \<open>The program\<close>

datatype outcome = Exit nat | Uncaught error

text \<open>The exit status of the process: an uncaught exception ends the interpreter with 1.\<close>

fun exit_status :: "outcome \<Rightarrow> nat" where
  "exit_status (Exit n) = n"
| "exit_status (Uncaught e) = 1"

definition main :: "world \<Rightarrow> outcome \<times> world \<times> event list" where
  "main w =
     (if length (argv w) < 2 then (Exit 1, w, [Banner, Missing_argument])
      else
        let ros_distro = argv w ! 1;
            workspace_root = cwd w;
            python_version = get_python_version_string w;
            interpreter_path = executable w;
            out = [Banner, Using_distro ros_distro, Using_interpreter interpreter_path,
                   Workspace_root workspace_root, Python_version python_version]
        in case find_paths_and_packages w workspace_root python_version ros_distro of
             Inl e \<Rightarrow> (Uncaught e, w, out)
           | Inr (python_paths, local_packages) \<Rightarrow>
               if python_paths = [] \<and> local_packages = []
               then (Exit 1, w, out @ [No_packages_found])
               else
                 let out = out @ [Skipping_cmake];
                     (err, w1, out1) =
                        (if python_paths \<noteq> []
                         then update_vscode_settings w workspace_root python_paths interpreter_path
                         else (None, w, []))
                 in case err of
                      Some e \<Rightarrow> (Uncaught e, w1, out @ out1)
                    | None \<Rightarrow>
                        let (w2, out2) =
                              (if local_packages \<noteq> []
                               then update_pyproject_toml w1 workspace_root local_packages
                               else (w1, []))
                        in (Exit 0, w2, out @ out1 @ out2 @ [Finished]))"

subsection \<open>Example workspaces\<close>

text \<open>
  A built workspace \<^verbatim>\<open>/ws\<close> under Python 3.12 with two packages, a file among the entries
  of \<^verbatim>\<open>install\<close>, a \<^verbatim>\<open>PYTHONPATH\<close> with a repeated, an empty and a missing entry, and both
  documents present. Of the toolchain candidates only the third exists.
\<close>

definition example_dirs :: "string list" where
  "example_dirs =
     [''/ws'', ''/ws/.vscode'', ''/ws/install'', ''/ws/install/zeta'', ''/ws/install/alpha'',
      ''/ws/install/alpha/lib'', ''/a'', ''/b'',
      ''/opt/ros/'' @ [CHR 0x5C] @ ''kilted/lib/python3.12/site-packages'']"

definition example_settings :: "(string \<times> pyval) list" where
  "example_settings =
     [(''editor.tabSize'', PInt 4),
      (''python.analysis.extraPaths'', PList [PStr ''/old'']),
      (''files.exclude'', PDict [(''**/build'', PBool True)])]"

definition example_pyproject :: "(string \<times> pyval) list" where
  "example_pyproject =
     [(''project'', PDict [(''name'', PStr ''demo'')]),
      (''tool'', PDict [(''ruff'', PDict [(''line-length'', PInt 100),
         (''lint'', PDict [(''isort'', PDict
            [(''known-first-party'', PList [PStr ''zeta'', PStr ''mine''])])])])])]"

definition example_world :: world where
  "example_world =
     \<lparr>argv = [''setup_vscode.py'', ''kilted''],
      cwd = ''/ws'',
      environ = [''PYTHONPATH'' \<mapsto> ''/a:/b::/a:/nowhere''],
      executable = ''/ws/venv/bin/python'',
      version_major = 3,
      version_minor = 12,
      nodes = (\<lambda>p. if p \<in> set example_dirs then Some Dir
                   else if p = ''/ws/pyproject.toml'' then Some (File (Toml example_pyproject))
                   else if p = ''/ws/.vscode/settings.json''
                     then Some (File (Json (PDict example_settings)))
                   else None),
      entries = [''/ws/install'' \<mapsto> [''zeta'', ''setup.bash'', ''alpha'']],
      stat_raises = (\<lambda>p. False),
      unreadable = (\<lambda>p. False),
      unwritable = (\<lambda>p. False),
      write_fault = (\<lambda>p c. None),
      toml_reload = Inr\<rparr>"

text \<open>The workspace before it is built: no \<^verbatim>\<open>install\<close> directory.\<close>

definition unbuilt_world :: world where
  "unbuilt_world = example_world\<lparr>nodes := (nodes example_world)(''/ws/install'' := None)\<rparr>"

text \<open>No \<^verbatim>\<open>pyproject.toml\<close>, with the two packages and without any package.\<close>

definition no_pyproject_world :: world where
  "no_pyproject_world =
     example_world\<lparr>nodes := (nodes example_world)(''/ws/pyproject.toml'' := None)\<rparr>"

definition no_packages_world :: world where
  "no_packages_world =
     no_pyproject_world\<lparr>entries := [''/ws/install'' \<mapsto> [''setup.bash'']]\<rparr>"

text \<open>\<^verbatim>\<open>settings.json\<close> is a directory: it exists, and opening it raises.\<close>

definition settings_is_dir_world :: world where
  "settings_is_dir_world =
     example_world\<lparr>nodes := (nodes example_world)(''/ws/.vscode/settings.json'' \<mapsto> Dir)\<rparr>"

text \<open>\<^verbatim>\<open>settings.json\<close> holds text that is not JSON.\<close>

definition corrupt_settings_world :: world where
  "corrupt_settings_world =
     example_world\<lparr>nodes := (nodes example_world)
       (''/ws/.vscode/settings.json'' \<mapsto> File Garbage)\<rparr>"


text \<open>
  The layout of a ROS 2 installation: the directory that the comments of the toolchain step
  name exists, and no directory has a backslash in its name.
\<close>

definition ros_world :: world where
  "ros_world =
     example_world\<lparr>nodes := (nodes example_world)
       (''/opt/ros/kilted/lib/python3.12/site-packages'' \<mapsto> Dir,
        ''/opt/ros/'' @ [CHR 0x5C] @ ''kilted/lib/python3.12/site-packages'' := None)\<rparr>"

text \<open>
  An argument of 5000 characters on a system that refuses a path of more than 4095, and no
  \<^verbatim>\<open>install\<close> directory.
\<close>

definition long_argument :: string where
  "long_argument = replicate 5000 CHR ''x''"

definition long_name_world :: world where
  "long_name_world =
     unbuilt_world\<lparr>argv := [''setup_vscode.py'', long_argument],
       stat_raises := (\<lambda>p. 4095 < length p)\<rparr>"

text \<open>The disk is full: the dump into \<^verbatim>\<open>settings.json\<close> raises after the file was opened.\<close>

definition disk_full_world :: world where
  "disk_full_world =
     example_world\<lparr>unwritable := (\<lambda>p. p = ''/ws/.vscode/settings.json''),
       write_fault := (\<lambda>p c. Some (Dump_raises OSError Garbage))\<rparr>"

section \<open>Properties\<close>

subsection \<open>Paths\<close>

lemma split_not_Nil: "split c s \<noteq> []"
  by (induction s) (auto split: list.splits)

lemma split_append: "split c (xs @ c # ys) = split c xs @ split c ys"
proof (induction xs)
  case Nil
  show ?case by simp
next
  case (Cons x xs)
  obtain u us where u: "split c xs = u # us"
    using split_not_Nil [of c xs] by (cases "split c xs") auto
  show ?case using Cons u by simp
qed

lemma split_no_sep: "c \<notin> set s \<Longrightarrow> split c s = [s]"
  by (induction s) auto

lemma split_parts_no_sep: "x \<in> set (split c s) \<Longrightarrow> c \<notin> set x"
proof (induction s arbitrary: x)
  case Nil
  then show ?case by simp
next
  case (Cons a s)
  obtain u us where u: "split c s = u # us"
    using split_not_Nil [of c s] by (cases "split c s") auto
  show ?case
  proof (cases "a = c")
    case True
    with Cons show ?thesis by auto
  next
    case False
    with Cons.prems u have "x = a # u \<or> x \<in> set us" by auto
    then show ?thesis
      using Cons.IH [of u] Cons.IH [of x] u False by auto
  qed
qed

lemma join_Cons: "join sep (x # xs) = x @ (if xs = [] then [] else sep @ join sep xs)"
  by (cases xs) auto

lemma split_join:
  "ps \<noteq> [] \<Longrightarrow> \<forall>p\<in>set ps. c \<notin> set p \<Longrightarrow> split c (join [c] ps) = ps"
proof (induction ps)
  case Nil
  then show ?case by simp
next
  case (Cons p ps)
  show ?case
  proof (cases ps)
    case Nil
    with Cons.prems show ?thesis by (simp add: split_no_sep)
  next
    case (Cons q qs)
    have "join [c] (p # ps) = p @ c # join [c] ps" using Cons by simp
    moreover have "split c (join [c] ps) = ps" using Cons.IH Cons.prems Cons by simp
    ultimately show ?thesis using Cons.prems by (simp add: split_append split_no_sep)
  qed
qed

lemma path_parts_props: "p \<in> set (path_parts s) \<Longrightarrow> p \<noteq> [] \<and> p \<noteq> ''.'' \<and> CHR ''/'' \<notin> set p"
  by (auto simp: path_parts_def dest: split_parts_no_sep)

lemma path_root_cases: "path_root s = [] \<or> path_root s = ''/'' \<or> path_root s = ''//''"
  by (simp add: path_root_def)

lemma join_parts_hd:
  "ps \<noteq> [] \<Longrightarrow> \<forall>p\<in>set ps. p \<noteq> [] \<and> CHR ''/'' \<notin> set p \<Longrightarrow>
     join ''/'' ps \<noteq> [] \<and> hd (join ''/'' ps) \<noteq> CHR ''/''"
  by (cases ps) (auto simp: join_Cons dest: hd_in_set)

lemma path_parts_root_join:
  assumes "\<forall>p\<in>set ps. p \<noteq> [] \<and> p \<noteq> ''.'' \<and> CHR ''/'' \<notin> set p"
    and "r = [] \<or> r = ''/'' \<or> r = ''//''"
  shows "path_parts (r @ join ''/'' ps) = ps"
proof -
  have j: "filter (\<lambda>x. x \<noteq> [] \<and> x \<noteq> ''.'') (split CHR ''/'' (join ''/'' ps)) = ps"
  proof (cases "ps = []")
    case True
    then show ?thesis by simp
  next
    case False
    then have "split CHR ''/'' (join ''/'' ps) = ps"
      using split_join [of ps "CHR ''/''"] assms(1) by simp
    then show ?thesis using assms(1) by (simp add: filter_id_conv)
  qed
  show ?thesis using assms(2) j by (auto simp: path_parts_def)
qed

lemma path_root_root_join:
  assumes "\<forall>p\<in>set ps. p \<noteq> [] \<and> p \<noteq> ''.'' \<and> CHR ''/'' \<notin> set p"
    and "r = [] \<or> r = ''/'' \<or> r = ''//''" and "r = [] \<longrightarrow> ps \<noteq> []"
  shows "path_root (r @ join ''/'' ps) = r"
proof (cases "ps = []")
  case True
  then show ?thesis using assms by (auto simp: path_root_def)
next
  case False
  then obtain a as where a: "join ''/'' ps = a # as" "a \<noteq> CHR ''/''"
    using join_parts_hd [of ps] assms(1) by (cases "join ''/'' ps") auto
  then show ?thesis using assms(2) by (auto simp: path_root_def)
qed

lemma path_str_idem: "path_str (path_str s) = path_str s"
proof (cases "path_root s = [] \<and> path_parts s = []")
  case True
  then have "path_str s = ''.''" by (simp add: path_str_def)
  moreover have "path_str ''.'' = ''.''" by (simp add: path_str_def path_root_def path_parts_def)
  ultimately show ?thesis by simp
next
  case False
  let ?r = "path_root s" and ?ps = "path_parts s"
  have props: "\<forall>p\<in>set ?ps. p \<noteq> [] \<and> p \<noteq> ''.'' \<and> CHR ''/'' \<notin> set p"
    using path_parts_props by blast
  have ne: "?r = [] \<longrightarrow> ?ps \<noteq> []" using False by simp
  have jn: "?ps \<noteq> [] \<Longrightarrow> join ''/'' ?ps \<noteq> []" using join_parts_hd [of ?ps] props by simp
  have s: "path_str s = ?r @ join ''/'' ?ps"
    using False jn by (auto simp: path_str_def Let_def)
  have e1: "path_parts (path_str s) = ?ps"
    unfolding s by (rule path_parts_root_join [OF props path_root_cases])
  have e2: "path_root (path_str s) = ?r"
    unfolding s by (rule path_root_root_join [OF props path_root_cases ne])
  have "path_str (path_str s) =
          (if ?r = [] \<and> join ''/'' ?ps = [] then ''.'' else ?r @ join ''/'' ?ps)"
    unfolding path_str_def [of "path_str s"] Let_def e1 e2 ..
  then show ?thesis using s False jn by auto
qed


lemma path_parts_append:
  "path_parts (a @ CHR ''/'' # b) = path_parts a @ path_parts b"
  by (simp add: path_parts_def split_append)

lemma path_parts_Nil: "path_parts [] = []"
  by (simp add: path_parts_def)

lemma path_parts_leaf:
  "x \<noteq> [] \<Longrightarrow> x \<noteq> ''.'' \<Longrightarrow> CHR ''/'' \<notin> set x \<Longrightarrow> path_parts x = [x]"
  by (simp add: path_parts_def split_no_sep)

lemma path_parts_path_str: "path_parts (path_str s) = path_parts s"
proof (cases "path_root s = [] \<and> path_parts s = []")
  case True
  then have "path_str s = ''.''" by (simp add: path_str_def)
  then show ?thesis using True by (simp add: path_parts_def)
next
  case False
  have props: "\<forall>p\<in>set (path_parts s). p \<noteq> [] \<and> p \<noteq> ''.'' \<and> CHR ''/'' \<notin> set p"
    using path_parts_props by blast
  have "path_parts s \<noteq> [] \<Longrightarrow> join ''/'' (path_parts s) \<noteq> []"
    using join_parts_hd [of "path_parts s"] props by simp
  then have "path_str s = path_root s @ join ''/'' (path_parts s)"
    using False by (auto simp: path_str_def Let_def)
  then show ?thesis
    using path_parts_root_join [OF props path_root_cases] by simp
qed

lemma path_parts_posix_join:
  assumes "take 1 b \<noteq> ''/''"
  shows "path_parts (posix_join a b) = path_parts a @ path_parts b"
proof (cases "a = []")
  case True
  then show ?thesis using assms by (simp add: posix_join_def path_parts_Nil)
next
  case False
  show ?thesis
  proof (cases "last a = CHR ''/''")
    case True
    then obtain a' where a': "a = a' @ ''/''"
      using False by (metis append_butlast_last_id)
    have "path_parts a = path_parts a'"
      unfolding a' using path_parts_append [of a' "[]"] by (simp add: path_parts_Nil)
    moreover have "posix_join a b = a' @ CHR ''/'' # b"
      using assms False True a' by (simp add: posix_join_def)
    ultimately show ?thesis by (simp add: path_parts_append)
  next
    case l: False
    then have "posix_join a b = a @ CHR ''/'' # b"
      using assms False by (simp add: posix_join_def)
    then show ?thesis by (simp add: path_parts_append)
  qed
qed

lemma path_parts_pdiv:
  "take 1 b \<noteq> ''/'' \<Longrightarrow> path_parts (pdiv a b) = path_parts a @ path_parts b"
  by (simp add: pdiv_def path_parts_path_str path_parts_posix_join)

lemma parts_settings_dir: "path_parts (settings_dir ws) = path_parts ws @ [''.vscode'']"
  by (simp add: settings_dir_def path_parts_pdiv path_parts_leaf)

lemma parts_settings_file:
  "path_parts (settings_file ws) = path_parts ws @ [''.vscode'', ''settings.json'']"
  by (simp add: settings_file_def path_parts_pdiv path_parts_leaf parts_settings_dir)

lemma parts_toml_file: "path_parts (toml_file ws) = path_parts ws @ [''pyproject.toml'']"
  by (simp add: toml_file_def path_parts_pdiv path_parts_leaf)

lemma settings_file_neq_dir: "settings_file ws \<noteq> settings_dir ws"
proof
  assume "settings_file ws = settings_dir ws"
  then have "path_parts (settings_file ws) = path_parts (settings_dir ws)" by simp
  then show False by (simp add: parts_settings_file parts_settings_dir)
qed

lemma toml_file_neq_dir: "toml_file ws \<noteq> settings_dir ws"
proof
  assume "toml_file ws = settings_dir ws"
  then have "path_parts (toml_file ws) = path_parts (settings_dir ws)" by simp
  then show False by (simp add: parts_toml_file parts_settings_dir)
qed

lemma toml_file_neq_settings: "toml_file ws \<noteq> settings_file ws"
proof
  assume "toml_file ws = settings_file ws"
  then have "path_parts (toml_file ws) = path_parts (settings_file ws)" by simp
  then show False by (simp add: parts_toml_file parts_settings_file)
qed

lemma join_snoc:
  "join sep (xs @ [x]) = (if xs = [] then x else join sep xs @ sep @ x)"
  by (induction sep xs rule: join.induct) auto

text \<open>A path below /opt/ros that ends in a proper leaf.\<close>

lemma opt_ros_shape:
  assumes "leaf \<noteq> []" "leaf \<noteq> ''.''" "CHR ''/'' \<notin> set leaf"
  shows "path_str (''/opt/ros/'' @ m @ CHR ''/'' # leaf) =
           ''/opt/ros/'' @ join ''/'' (path_parts m @ [leaf])"
proof -
  let ?s = "''/opt/ros/'' @ m @ CHR ''/'' # leaf"
  have r: "path_root ?s = ''/''" by (simp add: path_root_def)
  have "?s = [] @ CHR ''/'' # (''opt'' @ CHR ''/'' # (''ros'' @ CHR ''/'' # (m @ CHR ''/'' # leaf)))"
    by simp
  then have "path_parts ?s =
      path_parts [] @ path_parts ''opt'' @ path_parts ''ros'' @ path_parts m @ path_parts leaf"
    by (simp only: path_parts_append)
  then have p: "path_parts ?s = ''opt'' # ''ros'' # (path_parts m @ [leaf])"
    using assms by (simp add: path_parts_Nil path_parts_leaf)
  show ?thesis
    unfolding path_str_def Let_def r p by (simp add: join_Cons)
qed

lemma opt_ros_prefix_suffix:
  assumes "leaf \<noteq> []" "leaf \<noteq> ''.''" "CHR ''/'' \<notin> set leaf"
  shows "prefix ''/opt/ros/'' (path_str (''/opt/ros/'' @ m @ CHR ''/'' # leaf))"
    and "suffix leaf (path_str (''/opt/ros/'' @ m @ CHR ''/'' # leaf))"
  unfolding opt_ros_shape [OF assms]
  by (simp_all add: join_snoc suffix_def prefix_def)

lemma base_ros_path_shape:
  "prefix ''/opt/ros/'' (base_ros_path w d) \<and> suffix ''site-packages'' (base_ros_path w d)"
proof -
  define m where "m = d @ ''/lib/python'' @ spaces 29
       @ str_nat (version_major w) @ ''.'' @ str_nat (version_minor w) @ '']'' @ spaces 29"
  have "base_ros_path w d = path_str (''/opt/ros/'' @ m @ CHR ''/'' # ''site-packages'')"
    by (simp add: base_ros_path_def m_def)
  then show ?thesis
    using opt_ros_prefix_suffix [of "''site-packages''" m] by simp
qed

lemma dist_packages_path_shape:
  "prefix ''/opt/ros/'' (dist_packages_path w d) \<and> suffix ''dist-packages'' (dist_packages_path w d)"
proof -
  define m where "m = d @ ''/lib/python'' @ spaces 34
       @ str_nat (version_major w) @ ''.'' @ spaces 36 @ str_nat (version_minor w)"
  have "dist_packages_path w d = path_str (''/opt/ros/'' @ m @ CHR ''/'' # ''dist-packages'')"
    by (simp add: dist_packages_path_def m_def)
  then show ?thesis
    using opt_ros_prefix_suffix [of "''dist-packages''" m] by simp
qed

lemma system_site_packages_shape:
  "prefix ''/opt/ros/'' (system_site_packages pv d) \<and> suffix ''site-packages'' (system_site_packages pv d)"
proof -
  define m where "m = [CHR 0x5C] @ d @ ''/lib/'' @ pv"
  have "system_site_packages pv d = path_str (''/opt/ros/'' @ m @ CHR ''/'' # ''site-packages'')"
    by (simp add: system_site_packages_def m_def)
  then show ?thesis
    using opt_ros_prefix_suffix [of "''site-packages''" m] by simp
qed

subsection \<open>Discovery\<close>

lemma is_dir_Inr: "is_dir w p = Inr b \<longleftrightarrow> \<not> stat_raises w p \<and> b = (nodes w p = Some Dir)"
  by (auto simp: is_dir_def)

lemma is_dir_Inl: "is_dir w p = Inl e \<longleftrightarrow> stat_raises w p \<and> e = OSError"
  by (auto simp: is_dir_def)

lemma is_dir_True: "is_dir w p = Inr True \<longleftrightarrow> \<not> stat_raises w p \<and> nodes w p = Some Dir"
  by (auto simp: is_dir_def)

text \<open>
  Each loop of discovery either raises, when one of its checks does, or returns what the
  checks let through.
\<close>

lemma try_fold_append_if_dir:
  "try_fold (append_if_dir w) ps acc =
     (if \<exists>p\<in>set ps. stat_raises w p then Inl OSError
      else Inr (acc @ filter (\<lambda>p. is_dir w p = Inr True) ps))"
proof (induction ps arbitrary: acc)
  case Nil
  show ?case by simp
next
  case (Cons p ps)
  show ?case
  proof (cases "stat_raises w p")
    case True
    then show ?thesis by (simp add: append_if_dir_def is_dir_def)
  next
    case False
    then show ?thesis
      using Cons.IH by (simp add: append_if_dir_def is_dir_def)
  qed
qed

lemma toolchain_paths_eq:
  "toolchain_paths w pv d =
     (if d \<noteq> [] \<and> (\<exists>c\<in>set [base_ros_path w d, dist_packages_path w d,
                                  system_site_packages pv d]. stat_raises w c)
      then Inl OSError
      else Inr (if d \<noteq> [] then
                  filter (\<lambda>p. is_dir w p = Inr True)
                    [base_ros_path w d, dist_packages_path w d, system_site_packages pv d]
                else []))"
  by (simp only: toolchain_paths_def try_fold_append_if_dir) simp

lemma scan_install_eq:
  "scan_install w pv inst names (a, b) =
     (if \<exists>n\<in>set names. stat_raises w (pdiv inst n)
            \<or> (nodes w (pdiv inst n) = Some Dir
               \<and> (\<exists>q\<in>set (possible_paths w pv (pdiv inst n)). stat_raises w q))
      then Inl OSError
      else Inr (a @ concat (map (\<lambda>n. filter (\<lambda>p. is_dir w p = Inr True)
                                       (possible_paths w pv (pdiv inst n)))
                              (filter (\<lambda>n. is_dir w (pdiv inst n) = Inr True) names)),
                b @ filter (\<lambda>n. is_dir w (pdiv inst n) = Inr True) names))"
proof (induction names arbitrary: a b)
  case Nil
  show ?case by simp
next
  case (Cons n names)
  let ?c = "pdiv inst n"
  show ?case
  proof (cases "stat_raises w ?c")
    case True
    then show ?thesis by (simp add: is_dir_def Let_def)
  next
    case nr: False
    show ?thesis
    proof (cases "nodes w ?c = Some Dir")
      case False
      then have "is_dir w ?c = Inr False" using nr by (simp add: is_dir_def)
      then show ?thesis using Cons.IH [of a b] nr False by (auto simp: Let_def)
    next
      case True
      then have d: "is_dir w ?c = Inr True" using nr by (simp add: is_dir_def)
      show ?thesis
      proof (cases "\<exists>q\<in>set (possible_paths w pv ?c). stat_raises w q")
        case r: True
        then have "try_fold (append_if_dir w) (possible_paths w pv ?c) a = Inl OSError"
          by (simp only: try_fold_append_if_dir if_True)
        then show ?thesis using d r True by (simp add: Let_def)
      next
        case r: False
        then have "try_fold (append_if_dir w) (possible_paths w pv ?c) a
                     = Inr (a @ filter (\<lambda>p. is_dir w p = Inr True) (possible_paths w pv ?c))"
          by (simp only: try_fold_append_if_dir if_False)
        then show ?thesis
          using d r True nr
            Cons.IH [of "a @ filter (\<lambda>p. is_dir w p = Inr True) (possible_paths w pv ?c)"
              "b @ [n]"]
          by (auto simp: Let_def)
      qed
    qed
  qed
qed

lemma try_fold_env_step:
  "try_fold (env_step w) ps acc =
     (if \<exists>p\<in>set ps. p \<noteq> [] \<and> stat_raises w (path_str p) then Inl OSError
      else Inr (acc @ filter (\<lambda>p. p \<noteq> [] \<and> is_dir w (path_str p) = Inr True) ps))"
proof (induction ps arbitrary: acc)
  case Nil
  show ?case by simp
next
  case (Cons p ps)
  show ?case
  proof (cases "p \<noteq> [] \<and> stat_raises w (path_str p)")
    case True
    then show ?thesis by (simp add: env_step_def is_dir_def)
  next
    case False
    then show ?thesis
      using Cons.IH by (auto simp: env_step_def is_dir_def)
  qed
qed

lemma scan_pythonpath_eq:
  "scan_pythonpath w acc =
     (if \<exists>p\<in>set (split CHR '':'' (case environ w ''PYTHONPATH'' of None \<Rightarrow> [] | Some v \<Rightarrow> v)).
           p \<noteq> [] \<and> stat_raises w (path_str p)
      then Inl OSError
      else Inr (acc @ filter (\<lambda>p. p \<noteq> [] \<and> is_dir w (path_str p) = Inr True)
                  (split CHR '':'' (case environ w ''PYTHONPATH'' of None \<Rightarrow> [] | Some v \<Rightarrow> v))))"
proof (cases "(case environ w ''PYTHONPATH'' of None \<Rightarrow> [] | Some v \<Rightarrow> v) = []")
  case True
  then show ?thesis by (simp add: scan_pythonpath_def Let_def)
next
  case False
  then show ?thesis
    by (simp only: scan_pythonpath_def Let_def try_fold_env_step if_True simp_thms)
qed

lemma possible_paths_normal: "p \<in> set (possible_paths w pv d) \<Longrightarrow> path_str p = p"
  by (auto simp: possible_paths_def pdiv_def path_str_idem)

lemma candidates_normal:
  "path_str (base_ros_path w d) = base_ros_path w d"
  "path_str (dist_packages_path w d) = dist_packages_path w d"
  "path_str (system_site_packages pv d) = system_site_packages pv d"
  by (simp_all add: base_ros_path_def dist_packages_path_def system_site_packages_def
      path_str_idem)

text \<open>What is accumulated passed a check, and holds every toolchain path found.\<close>

lemma accumulated_checked:
  assumes "accumulated_paths w ws pv d names = Inr acc" and "p \<in> set acc"
  shows "is_dir w (path_str p) = Inr True"
proof -
  obtain t where t: "toolchain_paths w pv d = Inr t"
    using assms(1) by (auto simp: accumulated_paths_def split: sum.splits)
  obtain a b where s: "scan_install w pv (install_dir ws) names (t, []) = Inr (a, b)"
    using assms(1) t by (auto simp: accumulated_paths_def split: sum.splits)
  have e: "scan_pythonpath w a = Inr acc"
    using assms(1) t s by (simp add: accumulated_paths_def)
  have tn: "\<forall>q\<in>set t. is_dir w (path_str q) = Inr True"
    using t unfolding toolchain_paths_eq
    by (auto simp: candidates_normal split: if_splits)
  have an: "\<forall>q\<in>set a. is_dir w (path_str q) = Inr True"
    using s tn unfolding scan_install_eq
    by (auto simp: possible_paths_normal split: if_splits)
  show ?thesis
    using e an assms(2) unfolding scan_pythonpath_eq
    by (auto split: if_splits)
qed

lemma toolchain_in_accumulated:
  assumes "accumulated_paths w ws pv d names = Inr acc"
    and "toolchain_paths w pv d = Inr t"
  shows "set t \<subseteq> set acc"
proof -
  obtain a b where s: "scan_install w pv (install_dir ws) names (t, []) = Inr (a, b)"
    using assms by (auto simp: accumulated_paths_def split: sum.splits)
  have e: "scan_pythonpath w a = Inr acc"
    using assms s by (simp add: accumulated_paths_def)
  have "set t \<subseteq> set a"
    using s unfolding scan_install_eq by (auto split: if_splits)
  moreover have "set a \<subseteq> set acc"
    using e unfolding scan_pythonpath_eq by (auto split: if_splits)
  ultimately show ?thesis by blast
qed

subsection \<open>The de-duplication loop\<close>

lemma remdups_snoc: "remdups (ys @ [p]) = filter (\<lambda>y. y \<noteq> p) (remdups ys) @ [p]"
  by (induction ys) auto

lemma unique_loop_general:
  "unique_loop xs seen out = out @ rev (remdups (rev (filter (\<lambda>x. x \<notin> seen) xs)))"
proof (induction xs arbitrary: seen out)
  case Nil
  show ?case by simp
next
  case (Cons p ps)
  show ?case
  proof (cases "p \<in> seen")
    case True
    then show ?thesis using Cons.IH by simp
  next
    case False
    have "filter (\<lambda>y. y \<noteq> p) (remdups (rev (filter (\<lambda>x. x \<notin> seen) ps)))
            = remdups (rev (filter (\<lambda>x. x \<notin> insert p seen) ps))"
      by (simp add: rev_filter remdups_filter conj_commute)
    then show ?thesis
      using False Cons.IH [of "insert p seen" "out @ [p]"] by (simp add: remdups_snoc)
  qed
qed

lemma unique_loop_eq: "unique_loop xs {} [] = rev (remdups (rev xs))"
  by (simp add: unique_loop_general)

lemma unique_loop_set: "set (unique_loop xs {} []) = set xs"
  by (simp add: unique_loop_eq)

lemma unique_loop_distinct: "distinct (unique_loop xs {} [])"
  by (simp add: unique_loop_eq)

lemma unique_loop_Cons:
  "unique_loop (x # xs) {} [] = x # unique_loop (removeAll x xs) {} []"
proof -
  have "(\<lambda>y. y \<noteq> x) = (\<lambda>y. x \<noteq> y)" by auto
  then show ?thesis
    by (simp add: unique_loop_general removeAll_filter_not_eq remdups_snoc rev_filter
        remdups_filter)
qed

subsection \<open>Sorting a set of strings\<close>

lemma sorted_set_eq: "sorted_set xs = sorted_list_of_set (set xs)"
  by (simp add: sorted_set_def sorted_list_of_set_sort_remdups)

lemma sorted_set_any_order:
  "distinct ys \<Longrightarrow> set ys = set xs \<Longrightarrow> sort ys = sorted_set xs"
  unfolding sorted_set_def
  by (intro sorted_distinct_set_unique) simp_all

subsection \<open>What discovery returns\<close>

lemma find_unfold:
  assumes "is_dir w (install_dir ws) = Inr True" "entries w (install_dir ws) = Some names"
  shows "find_paths_and_packages w ws pv d =
           (case accumulated_paths w ws pv d names of
              Inl e \<Rightarrow> Inl e
            | Inr acc \<Rightarrow>
                Inr (unique_loop acc {} [],
                     sorted_set (filter (\<lambda>n. is_dir w (pdiv (install_dir ws) n) = Inr True)
                                   names)))"
proof (cases "toolchain_paths w pv d")
  case (Inl e)
  then show ?thesis by (simp add: find_paths_and_packages_def accumulated_paths_def)
next
  case t: (Inr t)
  show ?thesis
  proof (cases "scan_install w pv (install_dir ws) names (t, [])")
    case (Inl e)
    then show ?thesis
      using t assms by (simp add: find_paths_and_packages_def accumulated_paths_def Let_def)
  next
    case (Inr r)
    obtain a b where r: "r = (a, b)" by (cases r)
    have b: "b = filter (\<lambda>n. is_dir w (pdiv (install_dir ws) n) = Inr True) names"
      using Inr r unfolding scan_install_eq by (auto split: if_splits)
    show ?thesis
      using t assms Inr r b
      by (cases "scan_pythonpath w a")
        (simp_all add: find_paths_and_packages_def accumulated_paths_def Let_def)
  qed
qed

lemma find_not_dir:
  assumes "is_dir w (install_dir ws) = Inr False"
  shows "find_paths_and_packages w ws pv d =
           (case toolchain_paths w pv d of Inl e \<Rightarrow> Inl e | Inr t \<Rightarrow> Inr ([], []))"
  using assms by (cases "toolchain_paths w pv d") (simp_all add: find_paths_and_packages_def)

lemma find_cases:
  assumes "find_paths_and_packages w ws pv d = Inr (paths, pkgs)"
  shows "(is_dir w (install_dir ws) = Inr False \<and> paths = [] \<and> pkgs = []) \<or>
         (is_dir w (install_dir ws) = Inr True
          \<and> (\<exists>names. entries w (install_dir ws) = Some names))"
  using assms
  by (auto simp: find_paths_and_packages_def Let_def
      split: sum.splits bool.splits option.splits)

lemma find_error: "find_paths_and_packages w ws pv d = Inl e \<Longrightarrow> e = OSError"
proof -
  assume a: "find_paths_and_packages w ws pv d = Inl e"
  have t: "toolchain_paths w pv d = Inl x \<Longrightarrow> x = OSError" for x
    unfolding toolchain_paths_eq by (auto split: if_splits)
  have s: "scan_install w pv (install_dir ws) names (p, []) = Inl x \<Longrightarrow> x = OSError" for x names p
    unfolding scan_install_eq by (auto split: if_splits)
  have y: "scan_pythonpath w p = Inl x \<Longrightarrow> x = OSError" for x p
    unfolding scan_pythonpath_eq by (auto split: if_splits)
  show ?thesis
    using a t s y
    by (auto simp: find_paths_and_packages_def Let_def is_dir_Inl
        split: sum.splits bool.splits option.splits)
qed

text \<open>Discovery does not read \<open>entries\<close> except for the listing of \<^verbatim>\<open>install\<close>.\<close>

lemma accumulated_paths_entries:
  "accumulated_paths (w\<lparr>entries := E\<rparr>) ws pv d names = accumulated_paths w ws pv d names"
proof -
  let ?w = "w\<lparr>entries := E\<rparr>"
  have i: "is_dir ?w = is_dir w" by (simp add: is_dir_def fun_eq_iff)
  have c: "base_ros_path ?w = base_ros_path w" "dist_packages_path ?w = dist_packages_path w"
    "possible_paths ?w = possible_paths w"
    by (simp_all add: base_ros_path_def dist_packages_path_def possible_paths_def fun_eq_iff)
  have a: "append_if_dir ?w = append_if_dir w" by (simp add: append_if_dir_def fun_eq_iff i)
  have t: "toolchain_paths ?w pv d = toolchain_paths w pv d"
    by (simp add: toolchain_paths_def a c)
  have s: "scan_install ?w pv inst names acc = scan_install w pv inst names acc" for inst acc
  proof (induction names arbitrary: acc)
    case Nil
    show ?case by simp
  next
    case (Cons n names)
    obtain x y where "acc = (x, y)" by (cases acc)
    then show ?case using Cons.IH by (simp add: i a c Let_def cong: sum.case_cong bool.case_cong)
  qed
  have e: "env_step ?w = env_step w" by (simp add: env_step_def fun_eq_iff i)
  have p: "scan_pythonpath ?w = scan_pythonpath w"
    by (simp add: scan_pythonpath_def fun_eq_iff Let_def e)
  show ?thesis unfolding accumulated_paths_def t s p ..
qed

text \<open>Whether the accumulation returns depends on the set of entries only.\<close>

lemma accumulated_paths_returns:
  "(\<exists>acc. accumulated_paths w ws pv d names = Inr acc) \<longleftrightarrow>
     \<not> (d \<noteq> [] \<and> (\<exists>c\<in>set [base_ros_path w d, dist_packages_path w d,
                                  system_site_packages pv d]. stat_raises w c))
     \<and> \<not> (\<exists>n\<in>set names. stat_raises w (pdiv (install_dir ws) n)
            \<or> (nodes w (pdiv (install_dir ws) n) = Some Dir
               \<and> (\<exists>q\<in>set (possible_paths w pv (pdiv (install_dir ws) n)). stat_raises w q)))
     \<and> \<not> (\<exists>p\<in>set (split CHR '':'' (case environ w ''PYTHONPATH'' of None \<Rightarrow> [] | Some v \<Rightarrow> v)).
           p \<noteq> [] \<and> stat_raises w (path_str p))"
  unfolding accumulated_paths_def toolchain_paths_eq scan_install_eq scan_pythonpath_eq
  by (auto split: if_splits)

lemma accumulated_paths_no_raise:
  "\<forall>p. \<not> stat_raises w p \<Longrightarrow> \<exists>acc. accumulated_paths w ws pv d names = Inr acc"
  by (simp add: accumulated_paths_returns)

subsection \<open>The toolchain candidates\<close>

lemma str_nat_digits: "str_nat n \<noteq> [] \<and> CHR ''/'' \<notin> set (str_nat n)"
proof (induction n rule: str_nat.induct)
  case (1 n)
  have d: "(char_of (48 + k) :: char) \<noteq> CHR ''/''" if "k < 10" for k :: nat
  proof
    assume "(char_of (48 + k) :: char) = CHR ''/''"
    then have "of_char (char_of (48 + k) :: char) = (of_char CHR ''/'' :: nat)" by simp
    then show False using that by simp
  qed
  show ?case
  proof (cases "n < 10")
    case True
    then show ?thesis using d [of n] by (simp add: str_nat.simps [of n])
  next
    case False
    then show ?thesis
      using "1.IH" d [of "n mod 10"] by (simp add: str_nat.simps [of n])
  qed
qed

text \<open>
  For a distribution identifier that is a plain name, the three candidates are these
  strings of the identifier and the version.
\<close>

lemma candidates_exact:
  assumes "d \<noteq> []" "d \<noteq> ''.''" "CHR ''/'' \<notin> set d"
    and "pv \<noteq> []" "pv \<noteq> ''.''" "CHR ''/'' \<notin> set pv"
  shows "base_ros_path w d =
           ''/opt/ros/'' @ d @ ''/lib/python'' @ spaces 29 @ str_nat (version_major w) @ ''.''
             @ str_nat (version_minor w) @ '']'' @ spaces 29 @ ''/site-packages''"
    and "dist_packages_path w d =
           ''/opt/ros/'' @ d @ ''/lib/python'' @ spaces 34 @ str_nat (version_major w) @ ''.''
             @ spaces 36 @ str_nat (version_minor w) @ ''/dist-packages''"
    and "system_site_packages pv d =
           ''/opt/ros/'' @ [CHR 0x5C] @ d @ ''/lib/'' @ pv @ ''/site-packages''"
proof -
  note sn = str_nat_digits [of "version_major w"] str_nat_digits [of "version_minor w"]
  have pd: "path_parts d = [d]" using assms(1-3) by (rule path_parts_leaf)
  have lib: "path_parts ''lib'' = [''lib'']" by (simp add: path_parts_leaf)
  {
    fix x :: string assume x: "CHR ''/'' \<notin> set x"
    let ?m = "d @ CHR ''/'' # (''lib'' @ CHR ''/'' # (''python'' @ x))"
    have "path_parts (''python'' @ x) = [''python'' @ x]"
      using x by (intro path_parts_leaf) auto
    then have "path_parts ?m = [d, ''lib'', ''python'' @ x]"
      by (simp only: path_parts_append pd lib) simp
  } note py = this
  let ?x1 = "spaces 29 @ str_nat (version_major w) @ ''.'' @ str_nat (version_minor w) @ '']''
               @ spaces 29"
  have x1: "CHR ''/'' \<notin> set ?x1" using sn by auto
  have "base_ros_path w d
          = path_str (''/opt/ros/'' @ (d @ CHR ''/'' # (''lib'' @ CHR ''/'' # (''python'' @ ?x1)))
                       @ CHR ''/'' # ''site-packages'')"
    by (simp add: base_ros_path_def)
  also have "\<dots> = ''/opt/ros/'' @ join ''/'' ([d, ''lib'', ''python'' @ ?x1] @ [''site-packages''])"
    by (subst opt_ros_shape) (simp_all only: py [OF x1], simp_all)
  finally show "base_ros_path w d =
           ''/opt/ros/'' @ d @ ''/lib/python'' @ spaces 29 @ str_nat (version_major w) @ ''.''
             @ str_nat (version_minor w) @ '']'' @ spaces 29 @ ''/site-packages''"
    by simp
  let ?x2 = "spaces 34 @ str_nat (version_major w) @ ''.'' @ spaces 36
               @ str_nat (version_minor w)"
  have x2: "CHR ''/'' \<notin> set ?x2" using sn by auto
  have "dist_packages_path w d
          = path_str (''/opt/ros/'' @ (d @ CHR ''/'' # (''lib'' @ CHR ''/'' # (''python'' @ ?x2)))
                       @ CHR ''/'' # ''dist-packages'')"
    by (simp add: dist_packages_path_def)
  also have "\<dots> = ''/opt/ros/'' @ join ''/'' ([d, ''lib'', ''python'' @ ?x2] @ [''dist-packages''])"
    by (subst opt_ros_shape) (simp_all only: py [OF x2], simp_all)
  finally show "dist_packages_path w d =
           ''/opt/ros/'' @ d @ ''/lib/python'' @ spaces 34 @ str_nat (version_major w) @ ''.''
             @ spaces 36 @ str_nat (version_minor w) @ ''/dist-packages''"
    by simp
  let ?bd = "CHR 0x5C # d"
  have bd: "path_parts ?bd = [?bd]" using assms(3) by (intro path_parts_leaf) auto
  have ppv: "path_parts pv = [pv]" using assms(4-6) by (rule path_parts_leaf)
  have p3: "path_parts (?bd @ CHR ''/'' # (''lib'' @ CHR ''/'' # pv)) = [?bd, ''lib'', pv]"
    by (simp only: path_parts_append bd lib ppv) simp
  have "system_site_packages pv d
          = path_str (''/opt/ros/'' @ (?bd @ CHR ''/'' # (''lib'' @ CHR ''/'' # pv))
                       @ CHR ''/'' # ''site-packages'')"
    by (simp add: system_site_packages_def)
  also have "\<dots> = ''/opt/ros/'' @ join ''/'' ([?bd, ''lib'', pv] @ [''site-packages''])"
    by (subst opt_ros_shape) (simp_all only: p3, simp_all)
  finally have "system_site_packages pv d
          = ''/opt/ros/'' @ join ''/'' ([?bd, ''lib'', pv] @ [''site-packages''])" .
  then show "system_site_packages pv d =
           ''/opt/ros/'' @ [CHR 0x5C] @ d @ ''/lib/'' @ pv @ ''/site-packages''"
    by simp
qed


subsection \<open>The claims about discovery\<close>

text \<open>
  C1. The toolchain step, evaluated for the distribution \<^verbatim>\<open>kilted\<close> under Python 3.12
  on a machine where the directory \<^verbatim>\<open>/opt/ros/kilted/lib/python3.12/site-packages\<close> exists.
  The three candidates are not built from the identifier and the version tag alone: the
  continuation lines of the first two templates put 29 and 29, and 34 and 36, spaces into
  the string (and a \<^verbatim>\<open>]\<close> into the first), and the third template has a backslash before
  the identifier. None of them names the directory, the step finds nothing, and the
  returned search paths hold no toolchain path.
\<close>

theorem toolchain_candidates_malformed:
  "base_ros_path ros_world ''kilted''
     = ''/opt/ros/kilted/lib/python'' @ spaces 29 @ ''3.12]'' @ spaces 29 @ ''/site-packages''
   \<and> dist_packages_path ros_world ''kilted''
     = ''/opt/ros/kilted/lib/python'' @ spaces 34 @ ''3.'' @ spaces 36 @ ''12/dist-packages''
   \<and> system_site_packages (get_python_version_string ros_world) ''kilted''
     = ''/opt/ros/'' @ [CHR 0x5C] @ ''kilted/lib/python3.12/site-packages''
   \<and> is_dir ros_world ''/opt/ros/kilted/lib/python3.12/site-packages'' = Inr True
   \<and> toolchain_paths ros_world (get_python_version_string ros_world) ''kilted'' = Inr []
   \<and> find_paths_and_packages ros_world ''/ws'' (get_python_version_string ros_world) ''kilted''
     = Inr ([''/ws/install/alpha/lib'', ''/a'', ''/b''], [''alpha'', ''zeta''])"
proof -
  have 1: "base_ros_path ros_world ''kilted''
     = ''/opt/ros/kilted/lib/python'' @ spaces 29 @ ''3.12]'' @ spaces 29 @ ''/site-packages''"
    by code_simp
  have 2: "dist_packages_path ros_world ''kilted''
     = ''/opt/ros/kilted/lib/python'' @ spaces 34 @ ''3.'' @ spaces 36 @ ''12/dist-packages''"
    by code_simp
  have 3: "system_site_packages (get_python_version_string ros_world) ''kilted''
     = ''/opt/ros/'' @ [CHR 0x5C] @ ''kilted/lib/python3.12/site-packages''"
    by code_simp
  have 4: "is_dir ros_world ''/opt/ros/kilted/lib/python3.12/site-packages'' = Inr True"
    by code_simp
  have 5: "toolchain_paths ros_world (get_python_version_string ros_world) ''kilted'' = Inr []"
    by code_simp
  have 6: "find_paths_and_packages ros_world ''/ws'' (get_python_version_string ros_world)
             ''kilted''
     = Inr ([''/ws/install/alpha/lib'', ''/a'', ''/b''], [''alpha'', ''zeta''])"
    by code_simp
  show ?thesis by (intro conjI 1 2 3 4 5 6)
qed

text \<open>
  C2. When \<^verbatim>\<open>install\<close> is a directory whose listing gives \<open>names\<close>, what discovery
  returns as local packages is the sorted list, without duplicates, of the entries that are
  directories. The list depends on the set of entries only, so every other enumeration
  order of the same entries gives the same packages; no search path enters the formula.
  Discovery does return when no directory check raises.
\<close>

theorem local_packages_sorted_set:
  assumes "is_dir w (install_dir workspace_root) = Inr True"
    and "entries w (install_dir workspace_root) = Some names"
  shows "(\<forall>paths pkgs.
            find_paths_and_packages w workspace_root python_version ros_distro
              = Inr (paths, pkgs) \<longrightarrow>
            pkgs = sorted_list_of_set
                     {n \<in> set names. is_dir w (pdiv (install_dir workspace_root) n) = Inr True}
            \<and> sorted pkgs \<and> distinct pkgs
            \<and> (\<forall>names'. set names' = set names \<longrightarrow>
                  (\<exists>paths'.
                     find_paths_and_packages
                       (w\<lparr>entries := (entries w)(install_dir workspace_root \<mapsto> names')\<rparr>)
                       workspace_root python_version ros_distro = Inr (paths', pkgs))))
         \<and> ((\<forall>p. \<not> stat_raises w p) \<longrightarrow>
              (\<exists>paths pkgs.
                 find_paths_and_packages w workspace_root python_version ros_distro
                   = Inr (paths, pkgs)))"
proof -
  let ?inst = "install_dir workspace_root"
  let ?P = "\<lambda>n. is_dir w (pdiv ?inst n) = Inr True"
  let ?pkgs = "sorted_set (filter ?P names)"
  let ?find = "find_paths_and_packages w workspace_root python_version ros_distro"
  note u = find_unfold [OF assms, of python_version ros_distro]
  have s: "?pkgs = sorted_list_of_set {n \<in> set names. ?P n}"
    by (simp add: sorted_set_eq)
  have sd: "sorted ?pkgs" "distinct ?pkgs" by (simp_all add: sorted_set_def)
  have other: "\<exists>paths'. find_paths_and_packages
                      (w\<lparr>entries := (entries w)(?inst \<mapsto> names')\<rparr>)
                      workspace_root python_version ros_distro = Inr (paths', ?pkgs)"
    if r: "?find = Inr (paths, pkgs)" and eq: "set names' = set names" for paths pkgs names'
  proof -
    let ?w' = "w\<lparr>entries := (entries w)(?inst \<mapsto> names')\<rparr>"
    have d: "is_dir ?w' = is_dir w" by (simp add: is_dir_def fun_eq_iff)
    have "\<exists>acc. accumulated_paths w workspace_root python_version ros_distro names = Inr acc"
      using r u by (auto split: sum.splits)
    then have "\<exists>acc. accumulated_paths w workspace_root python_version ros_distro names' = Inr acc"
      unfolding accumulated_paths_returns eq .
    then obtain acc' where
      a: "accumulated_paths ?w' workspace_root python_version ros_distro names' = Inr acc'"
      unfolding accumulated_paths_entries by blast
    have "is_dir ?w' ?inst = Inr True" "entries ?w' ?inst = Some names'"
      using assms(1) by (simp_all add: d)
    from find_unfold [OF this, of python_version ros_distro]
    have "find_paths_and_packages ?w' workspace_root python_version ros_distro =
             Inr (unique_loop acc' {} [], sorted_set (filter ?P names'))"
      by (simp add: d a)
    moreover have "sorted_set (filter ?P names') = ?pkgs"
      using eq by (simp add: sorted_set_eq)
    ultimately show ?thesis by simp
  qed
  have val: "pkgs = ?pkgs" if "?find = Inr (paths, pkgs)" for paths pkgs
    using that u by (auto split: sum.splits)
  have ret: "\<exists>paths pkgs. ?find = Inr (paths, pkgs)" if "\<forall>p. \<not> stat_raises w p"
  proof -
    from accumulated_paths_no_raise [OF that]
    obtain acc where "accumulated_paths w workspace_root python_version ros_distro names = Inr acc"
      by blast
    then show ?thesis using u by simp
  qed
  show ?thesis
  proof (intro conjI allI impI)
    fix paths pkgs assume r: "?find = Inr (paths, pkgs)"
    show "pkgs = sorted_list_of_set {n \<in> set names. ?P n}" using val [OF r] s by simp
    show "sorted pkgs" "distinct pkgs" using val [OF r] sd by simp_all
    fix names' assume "set names' = set names"
    from other [OF r this] show "\<exists>paths'. find_paths_and_packages
                      (w\<lparr>entries := (entries w)(?inst \<mapsto> names')\<rparr>)
                      workspace_root python_version ros_distro = Inr (paths', pkgs)"
      using val [OF r] by simp
  next
    assume "\<forall>p. \<not> stat_raises w p"
    then show "\<exists>paths pkgs. ?find = Inr (paths, pkgs)" by (rule ret)
  qed
qed

theorem local_packages_sorted_set_witness:
  "is_dir example_world (install_dir ''/ws'') = Inr True
   \<and> entries example_world (install_dir ''/ws'') = Some [''zeta'', ''setup.bash'', ''alpha'']
   \<and> (\<exists>paths. find_paths_and_packages example_world ''/ws'' ''python3.12'' ''kilted''
                 = Inr (paths, [''alpha'', ''zeta'']))
   \<and> (\<exists>paths. find_paths_and_packages
                 (example_world\<lparr>entries := (entries example_world)
                     (install_dir ''/ws'' \<mapsto> [''alpha'', ''zeta'', ''setup.bash'', ''zeta''])\<rparr>)
                 ''/ws'' ''python3.12'' ''kilted'' = Inr (paths, [''alpha'', ''zeta'']))"
proof -
  have a: "is_dir example_world (install_dir ''/ws'') = Inr True" by code_simp
  have b: "entries example_world (install_dir ''/ws'') = Some [''zeta'', ''setup.bash'', ''alpha'']"
    by code_simp
  have c: "sorted_list_of_set {n \<in> set [''zeta'', ''setup.bash'', ''alpha''].
             is_dir example_world (pdiv (install_dir ''/ws'') n) = Inr True} = [''alpha'', ''zeta'']"
    by code_simp
  have d: "set [''alpha'', ''zeta'', ''setup.bash'', ''zeta''] = set [''zeta'', ''setup.bash'', ''alpha'']"
    by auto
  have n: "\<forall>p. \<not> stat_raises example_world p" by (simp add: example_world_def)
  note t = local_packages_sorted_set [OF a b, of "''python3.12''" "''kilted''"]
  from t n obtain paths pkgs where
    1: "find_paths_and_packages example_world ''/ws'' ''python3.12'' ''kilted'' = Inr (paths, pkgs)"
    by blast
  from t 1 have 2: "pkgs = sorted_list_of_set {n \<in> set [''zeta'', ''setup.bash'', ''alpha''].
             is_dir example_world (pdiv (install_dir ''/ws'') n) = Inr True}"
    by blast
  from t 1 have 3: "\<forall>names'. set names' = set [''zeta'', ''setup.bash'', ''alpha''] \<longrightarrow>
              (\<exists>paths'. find_paths_and_packages
                 (example_world\<lparr>entries := (entries example_world)(install_dir ''/ws'' \<mapsto> names')\<rparr>)
                 ''/ws'' ''python3.12'' ''kilted'' = Inr (paths', pkgs))"
    by blast
  have p: "pkgs = [''alpha'', ''zeta'']" using 2 c by simp
  from 3 d obtain paths' where
    4: "find_paths_and_packages
          (example_world\<lparr>entries := (entries example_world)
             (install_dir ''/ws'' \<mapsto> [''alpha'', ''zeta'', ''setup.bash'', ''zeta''])\<rparr>)
          ''/ws'' ''python3.12'' ''kilted'' = Inr (paths', pkgs)"
    by blast
  show ?thesis using a b 1 4 unfolding p by blast
qed

text \<open>
  C3. Every returned search path passed the directory check (the check of a
  \<^verbatim>\<open>PYTHONPATH\<close> entry is on the path it names), no path is returned twice, and the
  returned list is the accumulated list with the first occurrence of each string kept:
  \<open>remdups\<close> keeps last occurrences, so between the two reversals it keeps the first ones.
  For distinct \<open>A\<close>, \<open>B\<close>, \<open>C\<close> the list \<open>[A, B, A, C]\<close> becomes \<open>[A, B, C]\<close>.
\<close>

theorem search_paths_checked_unique_ordered:
  assumes "find_paths_and_packages w workspace_root python_version ros_distro
             = Inr (paths, pkgs)"
  shows "(\<forall>p\<in>set paths. is_dir w (path_str p) = Inr True)
         \<and> distinct paths
         \<and> (\<forall>names. is_dir w (install_dir workspace_root) = Inr True
                \<and> entries w (install_dir workspace_root) = Some names \<longrightarrow>
              (\<exists>acc. accumulated_paths w workspace_root python_version ros_distro names
                       = Inr acc
                 \<and> paths = unique_loop acc {} []
                 \<and> paths = rev (remdups (rev acc))))
         \<and> (\<forall>A B C :: string. distinct [A, B, C] \<longrightarrow>
              unique_loop [A, B, A, C] {} [] = [A, B, C])"
proof -
  have acc: "\<exists>acc. accumulated_paths w workspace_root python_version ros_distro names = Inr acc
               \<and> paths = unique_loop acc {} []"
    if "is_dir w (install_dir workspace_root) = Inr True"
      and "entries w (install_dir workspace_root) = Some names" for names
    using assms find_unfold [OF that, of python_version ros_distro]
    by (auto split: sum.splits)
  have "(\<forall>p\<in>set paths. is_dir w (path_str p) = Inr True) \<and> distinct paths"
  proof -
    from find_cases [OF assms]
    consider "paths = []"
      | names where "is_dir w (install_dir workspace_root) = Inr True"
          "entries w (install_dir workspace_root) = Some names"
      by blast
    then show ?thesis
    proof cases
      case 1
      then show ?thesis by simp
    next
      case 2
      from acc [OF 2] obtain a where
        a: "accumulated_paths w workspace_root python_version ros_distro names = Inr a"
        and p: "paths = unique_loop a {} []"
        by blast
      have "set paths = set a" "distinct paths"
        unfolding p by (simp_all only: unique_loop_set unique_loop_distinct)
      then show ?thesis using accumulated_checked [OF a] by simp
    qed
  qed
  then have chk: "\<forall>p\<in>set paths. is_dir w (path_str p) = Inr True" and dist: "distinct paths"
    by simp_all
  have ex: "unique_loop [A, B, A, C] {} [] = [A, B, C]" if "distinct [A, B, C]" for A B C :: string
    using that by auto
  have acc': "\<exists>acc. accumulated_paths w workspace_root python_version ros_distro names = Inr acc
               \<and> paths = unique_loop acc {} [] \<and> paths = rev (remdups (rev acc))"
    if "is_dir w (install_dir workspace_root) = Inr True"
      and "entries w (install_dir workspace_root) = Some names" for names
    using acc [OF that] by (auto simp: unique_loop_eq)
  show ?thesis
    using chk dist acc' ex by blast
qed

theorem search_paths_checked_unique_ordered_witness:
  "find_paths_and_packages example_world ''/ws'' ''python3.12'' ''kilted''
     = Inr ([''/opt/ros/'' @ [CHR 0x5C] @ ''kilted/lib/python3.12/site-packages'',
             ''/ws/install/alpha/lib'', ''/a'', ''/b''], [''alpha'', ''zeta''])
   \<and> accumulated_paths example_world ''/ws'' ''python3.12'' ''kilted''
        [''zeta'', ''setup.bash'', ''alpha'']
     = Inr [''/opt/ros/'' @ [CHR 0x5C] @ ''kilted/lib/python3.12/site-packages'',
            ''/ws/install/alpha/lib'', ''/a'', ''/b'', ''/a'']
   \<and> is_dir example_world (path_str ''/ws/install/alpha/lib'') = Inr True
   \<and> is_dir example_world (path_str ''/b'') = Inr True
   \<and> unique_loop [''A'', ''B'', ''A'', ''C''] {} [] = [''A'', ''B'', ''C'']"
proof -
  have f: "find_paths_and_packages example_world ''/ws'' ''python3.12'' ''kilted''
     = Inr ([''/opt/ros/'' @ [CHR 0x5C] @ ''kilted/lib/python3.12/site-packages'',
             ''/ws/install/alpha/lib'', ''/a'', ''/b''], [''alpha'', ''zeta''])"
    by code_simp
  have a: "accumulated_paths example_world ''/ws'' ''python3.12'' ''kilted''
        [''zeta'', ''setup.bash'', ''alpha'']
     = Inr [''/opt/ros/'' @ [CHR 0x5C] @ ''kilted/lib/python3.12/site-packages'',
            ''/ws/install/alpha/lib'', ''/a'', ''/b'', ''/a'']"
    by code_simp
  have d: "distinct [''A'', ''B'', ''C'']" by simp
  note t = search_paths_checked_unique_ordered [OF f]
  from t have "is_dir example_world (path_str ''/ws/install/alpha/lib'') = Inr True
      \<and> is_dir example_world (path_str ''/b'') = Inr True"
    by simp
  moreover from t d have "unique_loop [''A'', ''B'', ''A'', ''C''] {} [] = [''A'', ''B'', ''C'']"
    by blast
  ultimately show ?thesis using f a by blast
qed

text \<open>The long argument: its candidates are longer than any path the system takes.\<close>

lemma long_argument_facts:
  "length long_argument = 5000" "set long_argument = {CHR ''x''}" "long_argument \<noteq> []"
proof -
  show l: "length long_argument = 5000"
    unfolding long_argument_def by (rule length_replicate)
  show "set long_argument = {CHR ''x''}"
    unfolding long_argument_def by (rule set_replicate) simp
  show "long_argument \<noteq> []" using l by auto
qed

lemma long_name_world_fields:
  "argv long_name_world = [''setup_vscode.py'', long_argument]"
  "cwd long_name_world = cwd unbuilt_world"
  "nodes long_name_world = nodes unbuilt_world"
  "stat_raises long_name_world p = (4095 < length p)"
  by (simp_all add: long_name_world_def)

lemma long_argument_raises:
  "toolchain_paths long_name_world python_version long_argument = Inl OSError"
proof -
  let ?w = long_name_world
  have "long_argument \<noteq> ''.''"
  proof
    assume "long_argument = ''.''"
    then have "length long_argument = length ''.''" by (rule arg_cong)
    then show False by (simp add: long_argument_facts(1))
  qed
  moreover have "CHR ''/'' \<notin> set long_argument" by (simp add: long_argument_facts(2))
  ultimately have "5000 \<le> length (base_ros_path ?w long_argument)"
    using candidates_exact(1) [of long_argument "''x''" ?w] long_argument_facts(1,3)
    by simp
  then have "stat_raises ?w (base_ros_path ?w long_argument)"
    by (simp add: long_name_world_fields(4))
  then show ?thesis
    using long_argument_facts(3) by (simp add: toolchain_paths_eq)
qed

text \<open>
  C7, as the claim states it, fails. Under Python 3.12 the directory check passes on every
  error of the underlying \<^verbatim>\<open>stat\<close> call other than a missing entry, a non-directory on the
  way and two more. With an argument of 5000 characters the first toolchain candidate is
  longer than the 4095 characters a path may have, and its check raises: discovery does not
  return two empty lists, and the run ends by an uncaught exception.
\<close>

theorem missing_install_counterexample:
  "nodes long_name_world (install_dir (cwd long_name_world)) \<noteq> Some Dir
   \<and> length (argv long_name_world ! 1) = 5000
   \<and> find_paths_and_packages long_name_world (cwd long_name_world)
       (get_python_version_string long_name_world) (argv long_name_world ! 1) = Inl OSError
   \<and> find_paths_and_packages long_name_world (cwd long_name_world)
       (get_python_version_string long_name_world) (argv long_name_world ! 1) \<noteq> Inr ([], [])
   \<and> fst (main long_name_world) = Uncaught OSError"
proof -
  let ?w = long_name_world
  have "nodes unbuilt_world (install_dir (cwd unbuilt_world)) \<noteq> Some Dir" by code_simp
  then have 1: "nodes ?w (install_dir (cwd ?w)) \<noteq> Some Dir"
    unfolding long_name_world_fields(2,3) .
  have a: "argv ?w ! 1 = long_argument" "argv ?w ! Suc 0 = long_argument"
    "\<not> length (argv ?w) < 2"
    by (simp_all add: long_name_world_fields(1))
  have 2: "find_paths_and_packages ?w (cwd ?w) (get_python_version_string ?w) (argv ?w ! 1)
             = Inl OSError"
    unfolding a by (simp add: find_paths_and_packages_def long_argument_raises)
  have 3: "fst (main ?w) = Uncaught OSError"
    using 2 a(3) by (simp add: main_def Let_def)
  have 4: "length (argv ?w ! 1) = 5000" unfolding a by (rule long_argument_facts(1))
  show ?thesis using 1 2 3 4 by simp
qed

text \<open>
  C7, amended. When \<^verbatim>\<open>install\<close> below the working directory is not a directory,
  discovery either returns two empty lists as a value, whatever the toolchain step found, or
  raises an \<^verbatim>\<open>OSError\<close>; it returns exactly when none of the checks made so far raises (those
  of the three toolchain candidates, made for a non-empty identifier, and the one of
  \<^verbatim>\<open>install\<close>). Either way the run ends with exit status 1 and leaves the world as it was:
  with an argument given, through the exit taken because both lists are empty when
  discovery returns, and by the uncaught exception when it raises.
\<close>

theorem missing_install_exits_1:
  assumes "nodes w (install_dir (cwd w)) \<noteq> Some Dir"
  shows "(find_paths_and_packages w (cwd w) python_version ros_distro = Inr ([], [])
          \<or> find_paths_and_packages w (cwd w) python_version ros_distro = Inl OSError)
         \<and> (find_paths_and_packages w (cwd w) python_version ros_distro = Inr ([], []) \<longleftrightarrow>
              \<not> (ros_distro \<noteq> []
                  \<and> (\<exists>c\<in>set [base_ros_path w ros_distro, dist_packages_path w ros_distro,
                               system_site_packages python_version ros_distro].
                        stat_raises w c))
              \<and> \<not> stat_raises w (install_dir (cwd w)))
         \<and> exit_status (fst (main w)) = 1
         \<and> fst (snd (main w)) = w
         \<and> (2 \<le> length (argv w) \<longrightarrow>
              (case find_paths_and_packages w (cwd w) (get_python_version_string w)
                      (argv w ! 1) of
                 Inr r \<Rightarrow>
                   main w = (Exit 1, w,
                     [Banner, Using_distro (argv w ! 1), Using_interpreter (executable w),
                      Workspace_root (cwd w), Python_version (get_python_version_string w),
                      No_packages_found])
               | Inl e \<Rightarrow>
                   main w = (Uncaught OSError, w,
                     [Banner, Using_distro (argv w ! 1), Using_interpreter (executable w),
                      Workspace_root (cwd w),
                      Python_version (get_python_version_string w)])))"
proof -
  let ?inst = "install_dir (cwd w)"
  have i: "is_dir w ?inst = (if stat_raises w ?inst then Inl OSError else Inr False)"
    using assms by (simp add: is_dir_def)
  have f: "find_paths_and_packages w (cwd w) pv d =
             (if (d \<noteq> [] \<and> (\<exists>c\<in>set [base_ros_path w d, dist_packages_path w d,
                                          system_site_packages pv d]. stat_raises w c))
                 \<or> stat_raises w ?inst
              then Inl OSError else Inr ([], []))" for pv d
    unfolding find_paths_and_packages_def toolchain_paths_eq [of w pv d] Let_def i
    by auto
  have m: "main w = (Exit 1, w, [Banner, Missing_argument])" if "length (argv w) < 2"
    using that by (simp add: main_def)
  let ?out = "[Banner, Using_distro (argv w ! 1), Using_interpreter (executable w),
               Workspace_root (cwd w), Python_version (get_python_version_string w)]"
  let ?f = "find_paths_and_packages w (cwd w) (get_python_version_string w) (argv w ! 1)"
  have n: "main w = (case ?f of Inl e \<Rightarrow> (Uncaught e, w, ?out)
            | Inr r \<Rightarrow> (Exit 1, w, ?out @ [No_packages_found]))" if "2 \<le> length (argv w)"
  proof (cases "?f = Inl OSError")
    case True
    then show ?thesis using that by (simp add: main_def Let_def)
  next
    case False
    then have "?f = Inr ([], [])" by (simp add: f split: if_splits)
    then show ?thesis using that by (simp add: main_def Let_def)
  qed
  have c: "?f = Inr ([], []) \<or> ?f = Inl OSError" by (simp add: f)
  have st: "exit_status (fst (main w)) = 1 \<and> fst (snd (main w)) = w"
  proof (cases "length (argv w) < 2")
    case True
    with m show ?thesis by simp
  next
    case False
    then have "2 \<le> length (argv w)" by simp
    from n [OF this] c show ?thesis by auto
  qed
  have lg: "2 \<le> length (argv w) \<longrightarrow>
              (case ?f of
                 Inr r \<Rightarrow>
                   main w = (Exit 1, w,
                     [Banner, Using_distro (argv w ! 1), Using_interpreter (executable w),
                      Workspace_root (cwd w), Python_version (get_python_version_string w),
                      No_packages_found])
               | Inl e \<Rightarrow>
                   main w = (Uncaught OSError, w,
                     [Banner, Using_distro (argv w ! 1), Using_interpreter (executable w),
                      Workspace_root (cwd w),
                      Python_version (get_python_version_string w)]))"
  proof
    assume "2 \<le> length (argv w)"
    note n [OF this]
    with c show "case ?f of
                 Inr r \<Rightarrow>
                   main w = (Exit 1, w,
                     [Banner, Using_distro (argv w ! 1), Using_interpreter (executable w),
                      Workspace_root (cwd w), Python_version (get_python_version_string w),
                      No_packages_found])
               | Inl e \<Rightarrow>
                   main w = (Uncaught OSError, w,
                     [Banner, Using_distro (argv w ! 1), Using_interpreter (executable w),
                      Workspace_root (cwd w),
                      Python_version (get_python_version_string w)])"
      by (elim disjE) simp_all
  qed
  have a: "find_paths_and_packages w (cwd w) python_version ros_distro = Inr ([], [])
          \<or> find_paths_and_packages w (cwd w) python_version ros_distro = Inl OSError"
    by (simp add: f)
  have b: "find_paths_and_packages w (cwd w) python_version ros_distro = Inr ([], []) \<longleftrightarrow>
              \<not> (ros_distro \<noteq> []
                  \<and> (\<exists>c\<in>set [base_ros_path w ros_distro, dist_packages_path w ros_distro,
                               system_site_packages python_version ros_distro].
                        stat_raises w c))
              \<and> \<not> stat_raises w (install_dir (cwd w))"
    unfolding f by auto
  from st have st1: "exit_status (fst (main w)) = 1" and st2: "fst (snd (main w)) = w"
    by simp_all
  show ?thesis by (intro conjI a b st1 st2 lg)
qed

theorem missing_install_exits_1_witness:
  "nodes unbuilt_world (install_dir (cwd unbuilt_world)) \<noteq> Some Dir
   \<and> toolchain_paths unbuilt_world ''python3.12'' ''kilted''
       = Inr [''/opt/ros/'' @ [CHR 0x5C] @ ''kilted/lib/python3.12/site-packages'']
   \<and> find_paths_and_packages unbuilt_world (cwd unbuilt_world) ''python3.12'' ''kilted''
       = Inr ([], [])
   \<and> exit_status (fst (main unbuilt_world)) = 1
   \<and> fst (snd (main unbuilt_world)) = unbuilt_world"
proof -
  have h: "nodes unbuilt_world (install_dir (cwd unbuilt_world)) \<noteq> Some Dir" by code_simp
  have t: "toolchain_paths unbuilt_world ''python3.12'' ''kilted''
       = Inr [''/opt/ros/'' @ [CHR 0x5C] @ ''kilted/lib/python3.12/site-packages'']"
    by code_simp
  have n: "\<forall>p. \<not> stat_raises unbuilt_world p"
    by (simp add: unbuilt_world_def example_world_def)
  from missing_install_exits_1 [OF h, of "''python3.12''" "''kilted''"] h t n
  show ?thesis by simp
qed

subsection \<open>Dictionaries\<close>

lemma map_of_dict_set: "map_of (dict_set d k v) = (map_of d)(k \<mapsto> v)"
  by (induction d k v rule: dict_set.induct) (auto simp: fun_eq_iff)


lemma keys_dict_set: "set (map fst (dict_set d k v)) = insert k (set (map fst d))"
  by (induction d k v rule: dict_set.induct) auto

lemma distinct_dict_set: "distinct (map fst d) \<Longrightarrow> distinct (map fst (dict_set d k v))"
proof (induction d k v rule: dict_set.induct)
  case (1 k v)
  show ?case by simp
next
  case (2 a b d k v)
  then show ?case using keys_dict_set [of d k v] by auto
qed


subsection \<open>The settings writer\<close>

lemma map_of_set_owned_keys:
  "map_of (set_owned_keys d paths interp) =
     (map_of d)(''python.defaultInterpreterPath'' \<mapsto> PStr interp,
                ''python.analysis.extraPaths'' \<mapsto> PList (map PStr paths),
                ''python.autoComplete.extraPaths'' \<mapsto> PList (map PStr paths),
                ''python.analysis.typeCheckingMode'' \<mapsto> PStr ''basic'',
                ''python.analysis.diagnosticMode'' \<mapsto> PStr ''openFilesOnly'',
                ''cmake.configureOnOpen'' \<mapsto> PBool False)"
  by (simp only: set_owned_keys_def Let_def map_of_dict_set)

lemma set_owned_keys_frame:
  "k \<notin> set owned_keys \<Longrightarrow> map_of (set_owned_keys d paths interp) k = map_of d k"
  by (simp add: map_of_set_owned_keys owned_keys_def)


lemma distinct_set_owned_keys:
  "distinct (map fst d) \<Longrightarrow> distinct (map fst (set_owned_keys d paths interp))"
  by (simp add: set_owned_keys_def Let_def distinct_dict_set)

text \<open>Files: what the helpers read and leave behind.\<close>

lemma mkdir_exist_ok_result:
  assumes "mkdir_exist_ok w p = Inr w1"
  shows "w1 = w\<lparr>nodes := (nodes w)(p \<mapsto> Dir)\<rparr>"
proof (cases "nodes w p")
  case None
  with assms show ?thesis by (simp add: mkdir_exist_ok_def split: if_splits)
next
  case (Some n)
  with assms have n: "n = Dir" "w1 = w" by (cases n; simp add: mkdir_exist_ok_def)+
  have "(nodes w)(p \<mapsto> Dir) = nodes w" using Some n by (simp add: fun_upd_idem)
  then show ?thesis using n by simp
qed

lemma mkdir_exist_ok_error: "mkdir_exist_ok w p = Inl e \<Longrightarrow> e = OSError"
  by (cases "nodes w p") (auto simp: mkdir_exist_ok_def split: node.splits if_splits)

lemma open_read_frame:
  assumes "nodes v p = nodes w p" "unreadable v p = unreadable w p"
  shows "open_read v p = open_read w p"
  using assms by (auto simp: open_read_def split: option.splits node.splits)

lemma json_load_frame:
  assumes "nodes v p = nodes w p" "unreadable v p = unreadable w p"
  shows "json_load v p = json_load w p"
  unfolding json_load_def using open_read_frame [OF assms] by simp

lemma read_settings_frame:
  assumes "nodes v p = nodes w p" "unreadable v p = unreadable w p"
  shows "read_settings v p = read_settings w p"
  unfolding read_settings_def exists_path_def
  using json_load_frame [OF assms] assms(1) by simp

lemma json_load_Inr:
  "json_load w p = Inr v \<longleftrightarrow> nodes w p = Some (File (Json v)) \<and> \<not> unreadable w p"
proof (cases "nodes w p")
  case None
  then show ?thesis by (simp add: json_load_def open_read_def)
next
  case (Some n)
  show ?thesis
  proof (cases n)
    case Dir
    with Some show ?thesis by (simp add: json_load_def open_read_def)
  next
    case (File c)
    with Some show ?thesis by (cases c) (simp_all add: json_load_def open_read_def)
  qed
qed

lemma read_settings_parsed:
  assumes "json_load w p = Inr v"
  shows "read_settings w p = Inr (v, [])"
proof -
  have "exists_path w p"
    using assms by (simp add: json_load_Inr exists_path_def)
  then show ?thesis using assms by (simp add: read_settings_def)
qed

lemma json_load_Dir: "nodes w p = Some Dir \<Longrightarrow> json_load w p = Inl OSError"
  by (simp add: json_load_def open_read_def)

lemma read_settings_not_dir:
  assumes "read_settings w p = Inr r"
  shows "nodes w p \<noteq> Some Dir"
proof
  assume "nodes w p = Some Dir"
  then have "read_settings w p = Inl OSError"
    by (simp add: read_settings_def exists_path_def json_load_Dir)
  with assms show False by simp
qed

text \<open>A write that cannot fail, and the ways in which a write ends.\<close>

lemma write_file_ok:
  assumes "nodes w p \<noteq> Some Dir" "\<not> unwritable w p"
  shows "write_file w p c = (None, w\<lparr>nodes := (nodes w)(p \<mapsto> File c)\<rparr>)"
  using assms by (simp add: write_file_def)

lemma write_file_cases:
  assumes "write_file w p c = (r, w2)"
  shows "(r = None \<and> w2 = w\<lparr>nodes := (nodes w)(p \<mapsto> File c)\<rparr>)
         \<or> (r = Some OSError \<and> w2 = w)
         \<or> (\<exists>e left. r = Some e \<and> unwritable w p \<and> nodes w p \<noteq> Some Dir
               \<and> write_fault w p c = Some (Dump_raises e left)
               \<and> w2 = w\<lparr>nodes := (nodes w)(p \<mapsto> File left)\<rparr>)"
  using assms
  by (auto simp: write_file_def split: if_splits option.splits fault.splits)

text \<open>The settings writer once the directory is there.\<close>

lemma update_vscode_settings_after_mkdir:
  assumes "mkdir_exist_ok w (settings_dir ws) = Inr w1"
  shows "update_vscode_settings w ws paths interp =
     (case read_settings w1 (settings_file ws) of
        Inl e \<Rightarrow> (Some e, w1, [])
      | Inr (v, ev) \<Rightarrow>
          (case v of
             PDict d \<Rightarrow>
               (case write_file w1 (settings_file ws)
                       (Json (PDict (set_owned_keys d paths interp))) of
                  (Some e, w2) \<Rightarrow> (None, w2, ev @ [Settings_write_error (settings_file ws) e])
                | (None, w2) \<Rightarrow> (None, w2, ev @ [Settings_updated (settings_file ws)]))
           | _ \<Rightarrow> (Some TypeError, w1, ev)))"
proof (cases "read_settings w1 (settings_file ws)")
  case (Inl e)
  then show ?thesis using assms by (simp add: update_vscode_settings_def)
next
  case (Inr r)
  obtain v ev where r: "r = (v, ev)" by (cases r)
  show ?thesis
    using assms Inr r
    by (cases v) (simp_all add: update_vscode_settings_def)
qed

text \<open>The writer on a document that parses to a dictionary.\<close>

lemma update_vscode_settings_parsed:
  assumes "mkdir_exist_ok w (settings_dir ws) = Inr w1"
    and "json_load w1 (settings_file ws) = Inr (PDict d)"
  shows "update_vscode_settings w ws paths interp =
     (case write_file w1 (settings_file ws) (Json (PDict (set_owned_keys d paths interp))) of
        (Some e, w2) \<Rightarrow> (None, w2, [Settings_write_error (settings_file ws) e])
      | (None, w2) \<Rightarrow> (None, w2, [Settings_updated (settings_file ws)]))"
  unfolding update_vscode_settings_after_mkdir [OF assms(1)]
    read_settings_parsed [OF assms(2)]
  by (simp split: prod.splits option.splits)

subsection \<open>The claims about the settings writer\<close>

lemma mkdir_keeps_settings_file:
  assumes "mkdir_exist_ok w (settings_dir ws) = Inr w1"
  shows "nodes w1 (settings_file ws) = nodes w (settings_file ws)"
    and "unreadable w1 = unreadable w" and "unwritable w1 = unwritable w"
  using mkdir_exist_ok_result [OF assms] settings_file_neq_dir [of ws] by simp_all

text \<open>
  C4, as the claim states it, fails. The writer opens the file for writing, which empties
  it, and then dumps the document; when the dump raises (the disk is full, or the document
  is nested deeper than the encoder can follow), the exception is caught and printed, the
  writer returns, and the file is left cut off. Here the settings parse before the writer
  runs and do not parse after it, so the key \<^verbatim>\<open>editor.tabSize\<close> is lost.
\<close>

theorem other_keys_counterexample:
  "json_load disk_full_world (settings_file ''/ws'') = Inr (PDict example_settings)
   \<and> ''editor.tabSize'' \<notin> set owned_keys
   \<and> map_of example_settings ''editor.tabSize'' = Some (PInt 4)
   \<and> fst (update_vscode_settings disk_full_world ''/ws'' [''/a''] ''/py'') = None
   \<and> snd (snd (update_vscode_settings disk_full_world ''/ws'' [''/a''] ''/py''))
       = [Settings_write_error ''/ws/.vscode/settings.json'' OSError]
   \<and> json_load (fst (snd (update_vscode_settings disk_full_world ''/ws'' [''/a''] ''/py'')))
        (settings_file ''/ws'') = Inl JSONDecodeError"
proof -
  have 1: "json_load disk_full_world (settings_file ''/ws'') = Inr (PDict example_settings)"
    by code_simp
  have 2: "''editor.tabSize'' \<notin> set owned_keys" by code_simp
  have 3: "map_of example_settings ''editor.tabSize'' = Some (PInt 4)" by code_simp
  have 4: "fst (update_vscode_settings disk_full_world ''/ws'' [''/a''] ''/py'') = None"
    by code_simp
  have 5: "snd (snd (update_vscode_settings disk_full_world ''/ws'' [''/a''] ''/py''))
       = [Settings_write_error ''/ws/.vscode/settings.json'' OSError]"
    by code_simp
  have 6: "json_load (fst (snd (update_vscode_settings disk_full_world ''/ws'' [''/a''] ''/py'')))
        (settings_file ''/ws'') = Inl JSONDecodeError"
    by code_simp
  show ?thesis by (intro conjI 1 2 3 4 5 6)
qed

text \<open>
  C4, amended. If the settings file holds a document that parses to a dictionary, then
  after the writer, however it ends, the file still parses to a dictionary in which every
  key that is not one of the six owned keys has the value it had before (and is absent if
  it was), unless the dump of the new document raises after the file was opened. In that
  case a writer that returns has printed the write error and nothing else, and the file holds
  what the dump had written so far.
\<close>

theorem other_keys_preserved:
  assumes "json_load w (settings_file ws) = Inr (PDict d)"
    and "update_vscode_settings w ws paths interp = (err, w', out)"
    and "k \<notin> set owned_keys"
  shows "(\<not> (unwritable w (settings_file ws)
             \<and> (\<exists>e left. write_fault w (settings_file ws)
                             (Json (PDict (set_owned_keys d paths interp)))
                           = Some (Dump_raises e left))) \<longrightarrow>
            (\<exists>d'. json_load w' (settings_file ws) = Inr (PDict d')
                   \<and> map_of d' k = map_of d k))
         \<and> (\<forall>e left. unwritable w (settings_file ws)
                \<and> write_fault w (settings_file ws)
                     (Json (PDict (set_owned_keys d paths interp)))
                   = Some (Dump_raises e left)
                \<and> err = None \<longrightarrow>
              nodes w' (settings_file ws) = Some (File left)
              \<and> out = [Settings_write_error (settings_file ws) e])"
proof (cases "mkdir_exist_ok w (settings_dir ws)")
  case (Inl e)
  then have "w' = w" "err \<noteq> None" using assms(2) by (auto simp: update_vscode_settings_def)
  then show ?thesis using assms(1) by blast
next
  case (Inr w1)
  let ?f = "settings_file ws"
  let ?c = "Json (PDict (set_owned_keys d paths interp))"
  note keep = mkdir_keeps_settings_file [OF Inr]
  have ws: "write_fault w1 = write_fault w"
    using mkdir_exist_ok_result [OF Inr] by simp
  have j1: "json_load w1 ?f = Inr (PDict d)"
    using json_load_frame [of w1 ?f w] keep assms(1) by simp
  have readable: "\<not> unreadable w1 ?f"
    using j1 by (simp add: json_load_Inr)
  have nd: "nodes w1 ?f \<noteq> Some Dir" using j1 by (auto simp: json_load_Inr)
  note u = update_vscode_settings_parsed [OF Inr j1, of paths interp]
  show ?thesis
  proof (cases "unwritable w ?f \<and> (\<exists>e left. write_fault w ?f ?c = Some (Dump_raises e left))")
    case True
    then obtain e left where f: "write_fault w ?f ?c = Some (Dump_raises e left)"
      and uw: "unwritable w ?f"
      by blast
    have "write_file w1 ?f ?c = (Some e, w1\<lparr>nodes := (nodes w1)(?f \<mapsto> File left)\<rparr>)"
      using nd uw f keep ws by (simp add: write_file_def)
    then have "update_vscode_settings w ws paths interp =
        (None, w1\<lparr>nodes := (nodes w1)(?f \<mapsto> File left)\<rparr>, [Settings_write_error ?f e])"
      unfolding u by simp
    then have "nodes w' ?f = Some (File left)" "out = [Settings_write_error ?f e]"
      using assms(2) by auto
    then show ?thesis using True f by auto
  next
    case False
    have "write_file w1 ?f ?c = (None, w1\<lparr>nodes := (nodes w1)(?f \<mapsto> File ?c)\<rparr>)
          \<or> write_file w1 ?f ?c = (Some OSError, w1)"
      using False nd keep ws
      by (auto simp: write_file_def split: option.splits fault.splits)
    then have "w' = w1\<lparr>nodes := (nodes w1)(?f \<mapsto> File ?c)\<rparr> \<or> w' = w1"
      using assms(2) unfolding u by auto
    then have "json_load w' ?f = Inr (PDict (set_owned_keys d paths interp))
               \<or> json_load w' ?f = Inr (PDict d)"
      using readable j1 by (auto simp: json_load_Inr)
    then have "\<exists>d'. json_load w' ?f = Inr (PDict d') \<and> map_of d' k = map_of d k"
      using set_owned_keys_frame [OF assms(3)] by blast
    then show ?thesis using False by blast
  qed
qed

theorem other_keys_preserved_witness:
  "json_load example_world (settings_file ''/ws'') = Inr (PDict example_settings)
   \<and> ''files.exclude'' \<notin> set owned_keys
   \<and> \<not> unwritable example_world (settings_file ''/ws'')
   \<and> (\<exists>d'. json_load (fst (snd (update_vscode_settings example_world ''/ws'' [''/a''] ''/py'')))
               (settings_file ''/ws'') = Inr (PDict d')
            \<and> map_of d' ''files.exclude'' = Some (PDict [(''**/build'', PBool True)]))"
proof -
  have a: "json_load example_world (settings_file ''/ws'') = Inr (PDict example_settings)"
    by code_simp
  have b: "''files.exclude'' \<notin> set owned_keys" by code_simp
  have c: "map_of example_settings ''files.exclude'' = Some (PDict [(''**/build'', PBool True)])"
    by code_simp
  have n: "\<not> unwritable example_world (settings_file ''/ws'')" by (simp add: example_world_def)
  obtain err w' out where u:
    "update_vscode_settings example_world ''/ws'' [''/a''] ''/py'' = (err, w', out)"
    by (cases "update_vscode_settings example_world ''/ws'' [''/a''] ''/py''")
  from other_keys_preserved [OF a u b] n c u a b show ?thesis by simp
qed

text \<open>The file after a writer that returned and could write.\<close>

lemma settings_written:
  assumes "update_vscode_settings w ws paths interp = (None, w', out)"
    and "\<not> unwritable w (settings_file ws)"
  shows "\<exists>d. nodes w' (settings_file ws)
               = Some (File (Json (PDict (set_owned_keys d paths interp))))
           \<and> map_of (set_owned_keys d paths interp) ''python.defaultInterpreterPath''
               = Some (PStr interp)
           \<and> map_of (set_owned_keys d paths interp) ''python.analysis.extraPaths''
               = Some (PList (map PStr paths))
           \<and> map_of (set_owned_keys d paths interp) ''python.autoComplete.extraPaths''
               = Some (PList (map PStr paths))
           \<and> map_of (set_owned_keys d paths interp) ''python.analysis.typeCheckingMode''
               = Some (PStr ''basic'')
           \<and> map_of (set_owned_keys d paths interp) ''python.analysis.diagnosticMode''
               = Some (PStr ''openFilesOnly'')
           \<and> map_of (set_owned_keys d paths interp) ''cmake.configureOnOpen''
               = Some (PBool False)"
proof (cases "mkdir_exist_ok w (settings_dir ws)")
  case (Inl e)
  then show ?thesis using assms(1) by (simp add: update_vscode_settings_def)
next
  case (Inr w1)
  note keep = mkdir_keeps_settings_file [OF Inr]
  have wr: "\<not> unwritable w1 (settings_file ws)" using assms(2) keep by simp
  show ?thesis
  proof (cases "read_settings w1 (settings_file ws)")
    case (Inl e)
    then show ?thesis
      using assms(1) update_vscode_settings_after_mkdir [OF Inr, of paths interp] by simp
  next
    case r: (Inr r)
    obtain v ev where ve: "r = (v, ev)" by (cases r)
    have "\<exists>d. v = PDict d"
      using assms(1) update_vscode_settings_after_mkdir [OF Inr, of paths interp] r ve
      by (cases v) simp_all
    then obtain d where d: "v = PDict d" by blast
    have nd: "nodes w1 (settings_file ws) \<noteq> Some Dir"
      using r by (rule read_settings_not_dir)
    have "w' = w1\<lparr>nodes := (nodes w1)(settings_file ws \<mapsto>
                 File (Json (PDict (set_owned_keys d paths interp))))\<rparr>"
      using assms(1) update_vscode_settings_after_mkdir [OF Inr, of paths interp] r ve d
        write_file_ok [OF nd wr]
      by simp
    then have "nodes w' (settings_file ws)
                 = Some (File (Json (PDict (set_owned_keys d paths interp))))"
      by simp
    then show ?thesis by (auto simp: map_of_set_owned_keys)
  qed
qed

text \<open>
  C9. When the writer returns and the file can be written, the file holds the earlier
  document (empty if there was none or it was corrupted) with the six owned keys set:
  the interpreter path, the search paths under both extra-path keys, \<^verbatim>\<open>basic\<close>,
  \<^verbatim>\<open>openFilesOnly\<close> and \<^verbatim>\<open>False\<close>, whatever these keys held before.
\<close>

theorem owned_keys_written:
  assumes "update_vscode_settings w ws paths interp = (None, w', out)"
    and "\<not> unwritable w (settings_file ws)"
  shows "\<exists>d. nodes w' (settings_file ws)
               = Some (File (Json (PDict (set_owned_keys d paths interp))))
           \<and> map_of (set_owned_keys d paths interp) ''python.defaultInterpreterPath''
               = Some (PStr interp)
           \<and> map_of (set_owned_keys d paths interp) ''python.analysis.extraPaths''
               = Some (PList (map PStr paths))
           \<and> map_of (set_owned_keys d paths interp) ''python.autoComplete.extraPaths''
               = Some (PList (map PStr paths))
           \<and> map_of (set_owned_keys d paths interp) ''python.analysis.typeCheckingMode''
               = Some (PStr ''basic'')
           \<and> map_of (set_owned_keys d paths interp) ''python.analysis.diagnosticMode''
               = Some (PStr ''openFilesOnly'')
           \<and> map_of (set_owned_keys d paths interp) ''cmake.configureOnOpen''
               = Some (PBool False)"
  using assms by (rule settings_written)

theorem owned_keys_written_witness:
  "fst (update_vscode_settings example_world ''/ws'' [''/a'', ''/b''] ''/py'') = None
   \<and> \<not> unwritable example_world (settings_file ''/ws'')
   \<and> nodes (fst (snd (update_vscode_settings example_world ''/ws'' [''/a'', ''/b''] ''/py'')))
        (settings_file ''/ws'')
      = Some (File (Json (PDict
          [(''editor.tabSize'', PInt 4),
           (''python.analysis.extraPaths'', PList [PStr ''/a'', PStr ''/b'']),
           (''files.exclude'', PDict [(''**/build'', PBool True)]),
           (''python.defaultInterpreterPath'', PStr ''/py''),
           (''python.autoComplete.extraPaths'', PList [PStr ''/a'', PStr ''/b'']),
           (''python.analysis.typeCheckingMode'', PStr ''basic''),
           (''python.analysis.diagnosticMode'', PStr ''openFilesOnly''),
           (''cmake.configureOnOpen'', PBool False)])))
   \<and> (\<exists>d. nodes (fst (snd (update_vscode_settings example_world ''/ws'' [''/a'', ''/b''] ''/py'')))
              (settings_file ''/ws'')
              = Some (File (Json (PDict (set_owned_keys d [''/a'', ''/b''] ''/py'')))))"
proof -
  obtain w' out where u:
    "update_vscode_settings example_world ''/ws'' [''/a'', ''/b''] ''/py'' = (None, w', out)"
  proof -
    have "fst (update_vscode_settings example_world ''/ws'' [''/a'', ''/b''] ''/py'') = None"
      by code_simp
    then show ?thesis
      using that by (cases "update_vscode_settings example_world ''/ws'' [''/a'', ''/b''] ''/py''") auto
  qed
  have wr: "\<not> unwritable example_world (settings_file ''/ws'')" by code_simp
  have n: "nodes (fst (snd (update_vscode_settings example_world ''/ws'' [''/a'', ''/b''] ''/py'')))
        (settings_file ''/ws'')
      = Some (File (Json (PDict
          [(''editor.tabSize'', PInt 4),
           (''python.analysis.extraPaths'', PList [PStr ''/a'', PStr ''/b'']),
           (''files.exclude'', PDict [(''**/build'', PBool True)]),
           (''python.defaultInterpreterPath'', PStr ''/py''),
           (''python.autoComplete.extraPaths'', PList [PStr ''/a'', PStr ''/b'']),
           (''python.analysis.typeCheckingMode'', PStr ''basic''),
           (''python.analysis.diagnosticMode'', PStr ''openFilesOnly''),
           (''cmake.configureOnOpen'', PBool False)])))"
    by code_simp
  have w': "fst (snd (update_vscode_settings example_world ''/ws'' [''/a'', ''/b''] ''/py'')) = w'"
    using u by simp
  have f: "fst (update_vscode_settings example_world ''/ws'' [''/a'', ''/b''] ''/py'') = None"
    using u by simp
  from owned_keys_written [OF u wr] have e:
    "\<exists>d. nodes (fst (snd (update_vscode_settings example_world ''/ws'' [''/a'', ''/b''] ''/py'')))
              (settings_file ''/ws'')
              = Some (File (Json (PDict (set_owned_keys d [''/a'', ''/b''] ''/py''))))"
    unfolding w' by blast
  show ?thesis using f wr n e by (intro conjI)
qed

subsection \<open>The program\<close>

text \<open>The writers change nothing but \<open>nodes\<close>, and the settings writer only its two paths.\<close>

lemma update_vscode_settings_frame:
  assumes "update_vscode_settings w ws paths interp = (err, w', out)"
  shows "\<exists>N. w' = w\<lparr>nodes := N\<rparr>"
    and "q \<noteq> settings_dir ws \<Longrightarrow> q \<noteq> settings_file ws \<Longrightarrow> nodes w' q = nodes w q"
proof -
  have "(\<exists>N. w' = w\<lparr>nodes := N\<rparr>) \<and>
        (q \<noteq> settings_dir ws \<longrightarrow> q \<noteq> settings_file ws \<longrightarrow> nodes w' q = nodes w q)"
  proof (cases "mkdir_exist_ok w (settings_dir ws)")
    case (Inl e)
    then have "w' = w" using assms by (simp add: update_vscode_settings_def)
    moreover have "w = w\<lparr>nodes := nodes w\<rparr>" by simp
    ultimately show ?thesis by metis
  next
    case (Inr w1)
    note w1 = mkdir_exist_ok_result [OF Inr]
    have wf: "w2 = w1 \<or> (\<exists>c. w2 = w1\<lparr>nodes := (nodes w1)(settings_file ws \<mapsto> c)\<rparr>)"
      if "write_file w1 (settings_file ws) x = (r, w2)" for x r w2
      using write_file_cases [OF that] by blast
    have "w' = w1 \<or> (\<exists>c. w' = w1\<lparr>nodes := (nodes w1)(settings_file ws \<mapsto> c)\<rparr>)"
    proof (cases "read_settings w1 (settings_file ws)")
      case (Inl e)
      then show ?thesis
        using assms update_vscode_settings_after_mkdir [OF Inr, of paths interp] by simp
    next
      case r: (Inr r)
      obtain v ev where ve: "r = (v, ev)" by (cases r)
      show ?thesis
      proof (cases "\<exists>d. v = PDict d")
        case True
        then obtain d where d: "v = PDict d" by blast
        obtain x w2 where
          x: "write_file w1 (settings_file ws) (Json (PDict (set_owned_keys d paths interp)))
                = (x, w2)"
          by (cases "write_file w1 (settings_file ws)
                       (Json (PDict (set_owned_keys d paths interp)))")
        have "w' = w2"
          using assms update_vscode_settings_after_mkdir [OF Inr, of paths interp] r ve d x
          by (cases x) simp_all
        then show ?thesis using wf [OF x] by simp
      next
        case False
        then show ?thesis
          using assms update_vscode_settings_after_mkdir [OF Inr, of paths interp] r ve
          by (cases v) simp_all
      qed
    qed
    then show ?thesis
    proof
      assume "w' = w1"
      then show ?thesis using w1 by auto
    next
      assume "\<exists>c. w' = w1\<lparr>nodes := (nodes w1)(settings_file ws \<mapsto> c)\<rparr>"
      then obtain c where "w' = w1\<lparr>nodes := (nodes w1)(settings_file ws \<mapsto> c)\<rparr>" by blast
      then have "w' = w\<lparr>nodes := (nodes w)(settings_dir ws \<mapsto> Dir, settings_file ws \<mapsto> c)\<rparr>"
        using w1 by simp
      then show ?thesis by auto
    qed
  qed
  then show "\<exists>N. w' = w\<lparr>nodes := N\<rparr>"
    and "q \<noteq> settings_dir ws \<Longrightarrow> q \<noteq> settings_file ws \<Longrightarrow> nodes w' q = nodes w q"
    by blast+
qed

lemma main_unfold:
  assumes "2 \<le> length (argv w)"
    and "find_paths_and_packages w (cwd w) (get_python_version_string w) (argv w ! 1)
           = Inr (paths, pkgs)"
    and "paths \<noteq> [] \<or> pkgs \<noteq> []"
    and "(if paths \<noteq> [] then update_vscode_settings w (cwd w) paths (executable w)
          else (None, w, [])) = (err, w1, out1)"
  shows "main w =
     (case err of
        Some e \<Rightarrow>
          (Uncaught e, w1,
           [Banner, Using_distro (argv w ! 1), Using_interpreter (executable w),
            Workspace_root (cwd w), Python_version (get_python_version_string w),
            Skipping_cmake] @ out1)
      | None \<Rightarrow>
          (Exit 0,
           fst (if pkgs \<noteq> [] then update_pyproject_toml w1 (cwd w) pkgs else (w1, [])),
           [Banner, Using_distro (argv w ! 1), Using_interpreter (executable w),
            Workspace_root (cwd w), Python_version (get_python_version_string w),
            Skipping_cmake] @ out1
           @ snd (if pkgs \<noteq> [] then update_pyproject_toml w1 (cwd w) pkgs else (w1, []))
           @ [Finished]))"
proof -
  have n: "\<not> length (argv w) < 2" using assms(1) by simp
  have ne: "\<not> (paths = [] \<and> pkgs = [])" using assms(3) by simp
  show ?thesis
  proof (cases "paths = []")
    case True
    then have e: "err = None" "w1 = w" "out1 = []" using assms(4) by simp_all
    show ?thesis
      unfolding main_def Let_def
      using n ne assms(2) True e by (simp add: case_prod_beta)
  next
    case False
    then have u: "update_vscode_settings w (cwd w) paths (executable w) = (err, w1, out1)"
      using assms(4) by simp
    show ?thesis
      unfolding main_def Let_def
      using n assms(2) False u by (cases err) (simp_all add: case_prod_beta)
  qed
qed

text \<open>
  C10. On the read of an existing settings file only \<^verbatim>\<open>JSONDecodeError\<close> is contained: the
  document is then taken as empty, with a warning, and the writer goes on. Every other
  exception of the read leaves the writer, and a run whose settings writer raises ends
  with that exception uncaught, status 1, before the lint-config writer. There is a world
  where this happens with an OS-level error: \<^verbatim>\<open>settings.json\<close> exists and is a directory.
\<close>

theorem settings_read_errors:
  "(mkdir_exist_ok w (settings_dir ws) = Inr w1
      \<and> exists_path w1 (settings_file ws)
      \<and> json_load w1 (settings_file ws) = Inl e \<longrightarrow>
        (e = JSONDecodeError \<longrightarrow>
           read_settings w1 (settings_file ws)
             = Inr (PDict [], [Settings_corrupted (settings_file ws)])
           \<and> fst (update_vscode_settings w ws paths interp) = None)
      \<and> (e \<noteq> JSONDecodeError \<longrightarrow>
           update_vscode_settings w ws paths interp = (Some e, w1, [])))
   \<and> (2 \<le> length (argv v)
      \<and> find_paths_and_packages v (cwd v) (get_python_version_string v) (argv v ! 1)
          = Inr (ps, pkgs)
      \<and> ps \<noteq> []
      \<and> update_vscode_settings v (cwd v) ps (executable v) = (Some e', v1, out1) \<longrightarrow>
        fst (main v) = Uncaught e' \<and> exit_status (fst (main v)) = 1
        \<and> fst (snd (main v)) = v1 \<and> Finished \<notin> set (snd (snd (main v))))
   \<and> (\<exists>u. 2 \<le> length (argv u)
          \<and> exists_path u (settings_file (cwd u))
          \<and> json_load u (settings_file (cwd u)) = Inl OSError
          \<and> fst (main u) = Uncaught OSError)"
proof (intro conjI impI)
  assume a: "mkdir_exist_ok w (settings_dir ws) = Inr w1
      \<and> exists_path w1 (settings_file ws)
      \<and> json_load w1 (settings_file ws) = Inl e"
  {
    assume "e = JSONDecodeError"
    then show r: "read_settings w1 (settings_file ws)
             = Inr (PDict [], [Settings_corrupted (settings_file ws)])"
      using a by (simp add: read_settings_def)
    show "fst (update_vscode_settings w ws paths interp) = None"
      using a r update_vscode_settings_after_mkdir [of w ws w1 paths interp]
      by (simp split: prod.splits option.splits)
  }
  {
    assume "e \<noteq> JSONDecodeError"
    then have "read_settings w1 (settings_file ws) = Inl e"
      using a by (cases e) (simp_all add: read_settings_def)
    then show "update_vscode_settings w ws paths interp = (Some e, w1, [])"
      using a update_vscode_settings_after_mkdir [of w ws w1 paths interp] by simp
  }
next
  assume b: "2 \<le> length (argv v)
      \<and> find_paths_and_packages v (cwd v) (get_python_version_string v) (argv v ! 1)
          = Inr (ps, pkgs)
      \<and> ps \<noteq> []
      \<and> update_vscode_settings v (cwd v) ps (executable v) = (Some e', v1, out1)"
  then have s: "(if ps \<noteq> [] then update_vscode_settings v (cwd v) ps (executable v)
          else (None, v, [])) = (Some e', v1, out1)"
    by simp
  have ne: "ps \<noteq> [] \<or> pkgs \<noteq> []" using b by simp
  have en: "Finished \<notin> set out1"
  proof (cases "mkdir_exist_ok v (settings_dir (cwd v))")
    case (Inl x)
    then show ?thesis using b by (simp add: update_vscode_settings_def)
  next
    case (Inr x)
    have "read_settings x (settings_file (cwd v)) = Inr (a, ev) \<Longrightarrow> Finished \<notin> set ev" for a ev
      by (auto simp: read_settings_def split: if_splits sum.splits error.splits)
    then show ?thesis
      using b update_vscode_settings_after_mkdir [OF Inr, of ps "executable v"]
      by (auto split: sum.splits prod.splits pyval.splits if_splits option.splits)
  qed
  have m: "main v = (Uncaught e', v1,
           [Banner, Using_distro (argv v ! 1), Using_interpreter (executable v),
            Workspace_root (cwd v), Python_version (get_python_version_string v),
            Skipping_cmake] @ out1)"
    using main_unfold [OF _ _ ne s] b by simp
  show "fst (main v) = Uncaught e'" "exit_status (fst (main v)) = 1"
    "fst (snd (main v)) = v1" "Finished \<notin> set (snd (snd (main v)))"
    using m en by simp_all
next
  have "2 \<le> length (argv settings_is_dir_world)
          \<and> exists_path settings_is_dir_world (settings_file (cwd settings_is_dir_world))
          \<and> json_load settings_is_dir_world (settings_file (cwd settings_is_dir_world))
               = Inl OSError
          \<and> fst (main settings_is_dir_world) = Uncaught OSError"
    by code_simp
  then show "\<exists>u. 2 \<le> length (argv u)
          \<and> exists_path u (settings_file (cwd u))
          \<and> json_load u (settings_file (cwd u)) = Inl OSError
          \<and> fst (main u) = Uncaught OSError"
    by blast
qed

theorem settings_read_errors_witness:
  "mkdir_exist_ok settings_is_dir_world (settings_dir ''/ws'') = Inr settings_is_dir_world
   \<and> exists_path settings_is_dir_world (settings_file ''/ws'')
   \<and> json_load settings_is_dir_world (settings_file ''/ws'') = Inl OSError
   \<and> update_vscode_settings settings_is_dir_world ''/ws'' [''/a''] ''/py''
       = (Some OSError, settings_is_dir_world, [])
   \<and> mkdir_exist_ok corrupt_settings_world (settings_dir ''/ws'') = Inr corrupt_settings_world
   \<and> json_load corrupt_settings_world (settings_file ''/ws'') = Inl JSONDecodeError
   \<and> fst (update_vscode_settings corrupt_settings_world ''/ws'' [''/a''] ''/py'') = None"
proof -
  have n: "nodes settings_is_dir_world (settings_dir ''/ws'') = Some Dir" by code_simp
  have mk: "mkdir_exist_ok settings_is_dir_world (settings_dir ''/ws'') = Inr settings_is_dir_world"
    by (simp add: mkdir_exist_ok_def n)
  have ex: "exists_path settings_is_dir_world (settings_file ''/ws'')" by code_simp
  have jl: "json_load settings_is_dir_world (settings_file ''/ws'') = Inl OSError" by code_simp
  have n': "nodes corrupt_settings_world (settings_dir ''/ws'') = Some Dir" by code_simp
  have mk': "mkdir_exist_ok corrupt_settings_world (settings_dir ''/ws'') = Inr corrupt_settings_world"
    by (simp add: mkdir_exist_ok_def n')
  have ex': "exists_path corrupt_settings_world (settings_file ''/ws'')" by code_simp
  have jl': "json_load corrupt_settings_world (settings_file ''/ws'') = Inl JSONDecodeError"
    by code_simp
  from settings_read_errors [of settings_is_dir_world "''/ws''" settings_is_dir_world OSError
      "[''/a'']" "''/py''"] mk ex jl
  have 1: "update_vscode_settings settings_is_dir_world ''/ws'' [''/a''] ''/py''
       = (Some OSError, settings_is_dir_world, [])"
    by simp
  from settings_read_errors [of corrupt_settings_world "''/ws''" corrupt_settings_world
      JSONDecodeError "[''/a'']" "''/py''"] mk' ex' jl'
  have 2: "fst (update_vscode_settings corrupt_settings_world ''/ws'' [''/a''] ''/py'') = None"
    by simp
  show ?thesis using mk ex jl 1 mk' jl' 2 by (intro conjI)
qed


subsection \<open>A run without the lint-config document\<close>

lemma update_pyproject_toml_missing:
  "\<not> exists_path w (toml_file ws) \<Longrightarrow>
     update_pyproject_toml w ws pkgs = (w, [Pyproject_not_found ws])"
  by (simp add: update_pyproject_toml_def Let_def)

text \<open>
  C8, as stated, fails: with no package directory under \<^verbatim>\<open>install\<close> the lint-config
  writer is not called at all, so a run that found search paths and has no
  \<^verbatim>\<open>pyproject.toml\<close> prints nothing about it.
\<close>

theorem missing_pyproject_counterexample:
  "\<not> exists_path no_packages_world (toml_file (cwd no_packages_world))
   \<and> find_paths_and_packages no_packages_world (cwd no_packages_world)
        (get_python_version_string no_packages_world) (argv no_packages_world ! 1)
      = Inr ([''/opt/ros/'' @ [CHR 0x5C] @ ''kilted/lib/python3.12/site-packages'',
              ''/a'', ''/b''], [])
   \<and> fst (main no_packages_world) = Exit 0
   \<and> snd (snd (main no_packages_world))
      = [Banner, Using_distro ''kilted'', Using_interpreter ''/ws/venv/bin/python'',
         Workspace_root ''/ws'', Python_version ''python3.12'', Skipping_cmake,
         Settings_updated ''/ws/.vscode/settings.json'', Finished]
   \<and> Pyproject_not_found (cwd no_packages_world) \<notin> set (snd (snd (main no_packages_world)))"
  by code_simp

text \<open>
  C8, amended. In a run with an argument whose discovery found a search path, whose
  \<^verbatim>\<open>pyproject.toml\<close> does not exist, and whose settings writer returns with the settings
  file writable: the settings file is written with the owned keys, the run ends with
  status 0, and the lint-config writer, called exactly when a local package was found,
  prints its error and leaves the world as it is.
\<close>

theorem missing_pyproject_run:
  assumes "2 \<le> length (argv w)"
    and "find_paths_and_packages w (cwd w) (get_python_version_string w) (argv w ! 1)
           = Inr (paths, pkgs)"
    and "paths \<noteq> []"
    and "\<not> exists_path w (toml_file (cwd w))"
    and "update_vscode_settings w (cwd w) paths (executable w) = (None, w1, out1)"
    and "\<not> unwritable w (settings_file (cwd w))"
  shows "main w =
           (Exit 0, w1,
            [Banner, Using_distro (argv w ! 1), Using_interpreter (executable w),
             Workspace_root (cwd w), Python_version (get_python_version_string w),
             Skipping_cmake] @ out1
            @ (if pkgs \<noteq> [] then [Pyproject_not_found (cwd w)] else []) @ [Finished])
         \<and> update_pyproject_toml w1 (cwd w) pkgs = (w1, [Pyproject_not_found (cwd w)])
         \<and> \<not> exists_path w1 (toml_file (cwd w))
         \<and> (\<exists>d. nodes w1 (settings_file (cwd w))
                   = Some (File (Json (PDict (set_owned_keys d paths (executable w))))))"
proof -
  have "nodes w1 (toml_file (cwd w)) = nodes w (toml_file (cwd w))"
    using update_vscode_settings_frame(2) [OF assms(5)] toml_file_neq_dir toml_file_neq_settings
    by blast
  then have ne: "\<not> exists_path w1 (toml_file (cwd w))"
    using assms(4) by (simp add: exists_path_def)
  then have l: "update_pyproject_toml w1 (cwd w) pkgs = (w1, [Pyproject_not_found (cwd w)])"
    by (rule update_pyproject_toml_missing)
  have s: "(if paths \<noteq> [] then update_vscode_settings w (cwd w) paths (executable w)
          else (None, w, [])) = (None, w1, out1)"
    using assms(3,5) by simp
  have p: "paths \<noteq> [] \<or> pkgs \<noteq> []" using assms(3) by simp
  have m: "main w =
           (Exit 0, w1,
            [Banner, Using_distro (argv w ! 1), Using_interpreter (executable w),
             Workspace_root (cwd w), Python_version (get_python_version_string w),
             Skipping_cmake] @ out1
            @ (if pkgs \<noteq> [] then [Pyproject_not_found (cwd w)] else []) @ [Finished])"
    using main_unfold [OF assms(1,2) p s] l by simp
  have "\<exists>d. nodes w1 (settings_file (cwd w))
                   = Some (File (Json (PDict (set_owned_keys d paths (executable w)))))"
    using settings_written [OF assms(5,6)] by blast
  then show ?thesis using m l ne by blast
qed

theorem missing_pyproject_run_witness:
  "2 \<le> length (argv no_pyproject_world)
   \<and> find_paths_and_packages no_pyproject_world (cwd no_pyproject_world)
        (get_python_version_string no_pyproject_world) (argv no_pyproject_world ! 1)
      = Inr ([''/opt/ros/'' @ [CHR 0x5C] @ ''kilted/lib/python3.12/site-packages'',
              ''/ws/install/alpha/lib'', ''/a'', ''/b''], [''alpha'', ''zeta''])
   \<and> \<not> exists_path no_pyproject_world (toml_file (cwd no_pyproject_world))
   \<and> \<not> unwritable no_pyproject_world (settings_file (cwd no_pyproject_world))
   \<and> fst (main no_pyproject_world) = Exit 0
   \<and> snd (snd (main no_pyproject_world))
      = [Banner, Using_distro ''kilted'', Using_interpreter ''/ws/venv/bin/python'',
         Workspace_root ''/ws'', Python_version ''python3.12'', Skipping_cmake,
         Settings_updated ''/ws/.vscode/settings.json'', Pyproject_not_found ''/ws'', Finished]"
proof -
  let ?w = no_pyproject_world
  let ?paths = "[''/opt/ros/'' @ [CHR 0x5C] @ ''kilted/lib/python3.12/site-packages'',
              ''/ws/install/alpha/lib'', ''/a'', ''/b'']"
  have a: "2 \<le> length (argv ?w)" by code_simp
  have f: "find_paths_and_packages ?w (cwd ?w) (get_python_version_string ?w) (argv ?w ! 1)
      = Inr (?paths, [''alpha'', ''zeta''])"
    by code_simp
  have p: "?paths \<noteq> []" by simp
  have e: "\<not> exists_path ?w (toml_file (cwd ?w))" by code_simp
  have uw: "\<not> unwritable ?w (settings_file (cwd ?w))" by code_simp
  have o: "snd (snd (update_vscode_settings ?w (cwd ?w) ?paths (executable ?w)))
             = [Settings_updated ''/ws/.vscode/settings.json'']"
    by code_simp
  have c: "cwd ?w = ''/ws''" "argv ?w ! 1 = ''kilted''" "executable ?w = ''/ws/venv/bin/python''"
    "get_python_version_string ?w = ''python3.12''" "argv ?w ! Suc 0 = ''kilted''"
    by code_simp+
  obtain w1 out1 where u:
    "update_vscode_settings ?w (cwd ?w) ?paths (executable ?w) = (None, w1, out1)"
  proof -
    have "fst (update_vscode_settings ?w (cwd ?w) ?paths (executable ?w)) = None"
      by code_simp
    then show ?thesis
      using that by (cases "update_vscode_settings ?w (cwd ?w) ?paths (executable ?w)") auto
  qed
  have out1: "out1 = [Settings_updated ''/ws/.vscode/settings.json'']" using o u by simp
  from missing_pyproject_run [OF a f p e u uw]
  have "main ?w =
           (Exit 0, w1,
            [Banner, Using_distro (argv ?w ! 1), Using_interpreter (executable ?w),
             Workspace_root (cwd ?w), Python_version (get_python_version_string ?w),
             Skipping_cmake] @ out1
            @ [Pyproject_not_found (cwd ?w)] @ [Finished])"
    by simp
  then have "fst (main ?w) = Exit 0" and "snd (snd (main ?w))
      = [Banner, Using_distro ''kilted'', Using_interpreter ''/ws/venv/bin/python'',
         Workspace_root ''/ws'', Python_version ''python3.12'', Skipping_cmake,
         Settings_updated ''/ws/.vscode/settings.json'', Pyproject_not_found ''/ws'', Finished]"
    by (simp_all add: out1 c)
  then show ?thesis using a f e uw by (intro conjI)
qed

subsection \<open>Python's set and sort on lists of strings\<close>


lemma py_eq_PStr: "py_eq x (PStr s) \<longleftrightarrow> x = PStr s"
  by (cases x) (auto simp: py_eq_def)

lemma py_eq_PStr_left: "py_eq (PStr s) y \<longleftrightarrow> y = PStr s"
  by (cases y) (auto simp: py_eq_def)


lemma fold_set_step_strings:
  "fold set_step (map PStr ss) (map PStr acc) = map PStr (unique_loop ss (set acc) acc)"
proof (induction ss arbitrary: acc)
  case Nil
  show ?case by simp
next
  case (Cons s ss)
  have m: "list_ex (py_eq (PStr s)) (map PStr acc) \<longleftrightarrow> s \<in> set acc"
    by (auto simp: list_ex_iff py_eq_PStr_left)
  show ?case
  proof (cases "s \<in> set acc")
    case True
    then show ?thesis using m Cons.IH [of acc] by simp
  next
    case False
    then show ?thesis using m Cons.IH [of "acc @ [s]"] by simp
  qed
qed

lemma py_set_strings: "py_set (map PStr ss) = map PStr (unique_loop ss {} [])"
  using fold_set_step_strings [of ss "[]"] by (simp add: py_set_def)



lemma sort_short: "length (xs :: string list) \<le> 1 \<Longrightarrow> sort xs = xs"
  by (cases xs) (simp_all add: sorted_sort_id)

lemma py_sorted_set_strings:
  "py_sorted_set (map PStr ss) = Inr (map PStr (sorted_set ss))"
proof -
  let ?u = "unique_loop ss {} []"
  have h: "list_all hashable (map PStr ss)" by (simp add: list_all_iff)
  have s: "sort ?u = sorted_set ss"
    by (rule sorted_set_any_order) (simp_all add: unique_loop_distinct unique_loop_set)
  have str: "list_all (\<lambda>x. str_val x \<noteq> None) (map PStr ?u)" by (simp add: list_all_iff)
  have m: "map (the \<circ> str_val) (map PStr ?u) = ?u" by (simp add: comp_def)
  show ?thesis
  proof (cases "length ?u \<le> 1")
    case True
    then have "sort ?u = ?u" by (rule sort_short)
    then show ?thesis
      using True h s by (simp add: py_sorted_set_def py_set_strings Let_def)
  next
    case False
    then show ?thesis
      using h s str m by (simp add: py_sorted_set_def py_set_strings Let_def)
  qed
qed



subsection \<open>The lint-config writer\<close>

lemma table_at_dict_set: "table_at (dict_set d k (PDict t)) k = Inr t"
  by (simp add: table_at_def map_of_dict_set)

lemma updated_list_strings:
  "updated_list (PList (map PStr ks)) ps = Inr (map PStr (sorted_set (ks @ ps)))"
  using py_sorted_set_strings [of "ks @ ps"] by (simp add: updated_list_def)




lemma merge_first_party_built:
  assumes "table_at t ''tool'' = Inr tool" "table_at tool ''ruff'' = Inr ruff"
    "table_at ruff ''lint'' = Inr lint" "table_at lint ''isort'' = Inr isort"
    "updated_list (case map_of isort ''known-first-party'' of None \<Rightarrow> PList [] | Some v \<Rightarrow> v) ps
       = Inr l"
  shows "merge_first_party t ps =
           Inr (dict_set t ''tool'' (PDict (dict_set tool ''ruff'' (PDict (dict_set ruff ''lint''
            (PDict (dict_set lint ''isort'' (PDict
               (dict_set isort ''known-first-party'' (PList l))))))))))"
  using assms by (simp add: merge_first_party_def Let_def)

lemma stored_first_party_built:
  "stored_first_party
     (dict_set t ''tool'' (PDict (dict_set tool ''ruff'' (PDict (dict_set ruff ''lint''
        (PDict (dict_set lint ''isort'' (PDict
           (dict_set isort ''known-first-party'' (PList l))))))))))
   = Inr (PList l)"
  by (simp add: stored_first_party_def table_at_dict_set map_of_dict_set)

lemma stored_first_party_sections:
  assumes "stored_first_party t = Inr v"
  obtains tool ruff lint isort where
    "table_at t ''tool'' = Inr tool" "table_at tool ''ruff'' = Inr ruff"
    "table_at ruff ''lint'' = Inr lint" "table_at lint ''isort'' = Inr isort"
    "v = (case map_of isort ''known-first-party'' of None \<Rightarrow> PList [] | Some v \<Rightarrow> v)"
  using assms that
  by (auto simp: stored_first_party_def split: sum.splits)

lemma merge_first_party_strings:
  assumes "stored_first_party t = Inr (PList (map PStr ks))"
  shows "\<exists>t'. merge_first_party t ps = Inr t'
           \<and> stored_first_party t' = Inr (PList (map PStr (sorted_set (ks @ ps))))"
proof -
  from stored_first_party_sections [OF assms] obtain tool ruff lint isort where
    s: "table_at t ''tool'' = Inr tool" "table_at tool ''ruff'' = Inr ruff"
      "table_at ruff ''lint'' = Inr lint" "table_at lint ''isort'' = Inr isort"
    and v: "PList (map PStr ks)
              = (case map_of isort ''known-first-party'' of None \<Rightarrow> PList [] | Some v \<Rightarrow> v)"
    by blast
  have u: "updated_list (case map_of isort ''known-first-party'' of None \<Rightarrow> PList [] | Some v \<Rightarrow> v) ps
       = Inr (map PStr (sorted_set (ks @ ps)))"
    unfolding v [symmetric] by (rule updated_list_strings)
  show ?thesis
    using merge_first_party_built [OF s u] stored_first_party_built by simp
qed


lemma toml_load_Inr:
  "toml_load w p = Inr t \<longleftrightarrow>
     \<not> unreadable w p
     \<and> (nodes w p = Some (File (Toml t))
        \<or> (\<exists>s. nodes w p = Some (File (Toml_dump s)) \<and> toml_reload w s = Inr t))"
proof (cases "nodes w p")
  case None
  then show ?thesis by (simp add: toml_load_def open_read_def)
next
  case (Some n)
  show ?thesis
  proof (cases n)
    case Dir
    with Some show ?thesis by (simp add: toml_load_def open_read_def)
  next
    case (File c)
    with Some show ?thesis by (cases c) (auto simp: toml_load_def open_read_def)
  qed
qed

lemma toml_load_file:
  assumes "toml_load w p = Inr t"
  shows "nodes w p \<noteq> Some Dir" and "exists_path w p" and "\<not> unreadable w p"
  using assms by (auto simp: toml_load_Inr exists_path_def)

lemma count_list_distinct:
  "distinct xs \<Longrightarrow> count_list xs x = (if x \<in> set xs then 1 else 0)"
  by (induction xs) auto

text \<open>
  C5. When \<^verbatim>\<open>pyproject.toml\<close> parses, the list read under \<^verbatim>\<open>known-first-party\<close> is a list
  of strings \<open>ks\<close> (or is missing, which reads as the empty list) and the file can be
  written, the writer dumps the document whose list under that key is the ascending,
  duplicate-free list of the union of \<open>ks\<close> and the discovered packages. A name that is
  both listed and discovered occurs in it exactly once.
\<close>

theorem first_party_union:
  assumes "toml_load w (toml_file ws) = Inr t"
    and "stored_first_party t = Inr (PList (map PStr ks))"
    and "\<not> unwritable w (toml_file ws)"
  shows "\<exists>t'. update_pyproject_toml w ws ps
                 = (w\<lparr>nodes := (nodes w)(toml_file ws \<mapsto> File (Toml_dump t'))\<rparr>,
                    [Pyproject_updated (toml_file ws)])
            \<and> stored_first_party t'
                 = Inr (PList (map PStr (sorted_list_of_set (set ks \<union> set ps))))
            \<and> sorted (sorted_list_of_set (set ks \<union> set ps))
            \<and> distinct (sorted_list_of_set (set ks \<union> set ps))
            \<and> set (sorted_list_of_set (set ks \<union> set ps)) = set ks \<union> set ps
            \<and> (foo \<in> set ks \<and> foo \<in> set ps \<longrightarrow>
                  count_list (sorted_list_of_set (set ks \<union> set ps)) foo = 1)"
proof -
  let ?f = "toml_file ws"
  let ?L = "sorted_list_of_set (set ks \<union> set ps)"
  note n = toml_load_file(1) [OF assms(1)] and ex = toml_load_file(2) [OF assms(1)]
  from merge_first_party_strings [OF assms(2), of ps] obtain t' where
    m: "merge_first_party t ps = Inr t'"
    and s: "stored_first_party t' = Inr (PList (map PStr (sorted_set (ks @ ps))))"
    by blast
  have L: "sorted_set (ks @ ps) = ?L" by (simp add: sorted_set_eq)
  have wf: "write_file w ?f (Toml_dump t')
              = (None, w\<lparr>nodes := (nodes w)(?f \<mapsto> File (Toml_dump t'))\<rparr>)"
    using n assms(3) by (rule write_file_ok)
  have u: "update_pyproject_toml w ws ps
             = (w\<lparr>nodes := (nodes w)(?f \<mapsto> File (Toml_dump t'))\<rparr>, [Pyproject_updated ?f])"
    using ex assms(1) m wf by (simp add: update_pyproject_toml_def Let_def)
  have d: "distinct ?L" and st: "set ?L = set ks \<union> set ps" by simp_all
  have c: "count_list ?L foo = 1" if "foo \<in> set ks \<and> foo \<in> set ps"
    using that count_list_distinct [OF d, of foo] st by simp
  show ?thesis
    using u s c unfolding L by (intro exI [of _ t']) simp
qed

theorem first_party_union_witness:
  "toml_load example_world (toml_file ''/ws'') = Inr example_pyproject
   \<and> stored_first_party example_pyproject = Inr (PList (map PStr [''zeta'', ''mine'']))
   \<and> \<not> unwritable example_world (toml_file ''/ws'')
   \<and> sorted_list_of_set (set [''zeta'', ''mine''] \<union> set [''alpha'', ''zeta''])
       = [''alpha'', ''mine'', ''zeta'']
   \<and> (\<exists>t'. nodes (fst (update_pyproject_toml example_world ''/ws'' [''alpha'', ''zeta'']))
               (toml_file ''/ws'') = Some (File (Toml_dump t'))
            \<and> stored_first_party t'
                 = Inr (PList [PStr ''alpha'', PStr ''mine'', PStr ''zeta'']))
   \<and> count_list [''alpha'', ''mine'', ''zeta''] ''zeta'' = 1"
proof -
  have a: "toml_load example_world (toml_file ''/ws'') = Inr example_pyproject" by code_simp
  have b: "stored_first_party example_pyproject = Inr (PList (map PStr [''zeta'', ''mine'']))"
    by code_simp
  have c: "\<not> unwritable example_world (toml_file ''/ws'')" by code_simp
  have L: "sorted_list_of_set (set [''zeta'', ''mine''] \<union> set [''alpha'', ''zeta''])
       = [''alpha'', ''mine'', ''zeta'']"
    by code_simp
  have z: "''zeta'' \<in> set [''zeta'', ''mine''] \<and> ''zeta'' \<in> set [''alpha'', ''zeta'']" by simp
  from first_party_union [OF a b c, of "[''alpha'', ''zeta'']" "''zeta''"] obtain t' where
    u: "update_pyproject_toml example_world ''/ws'' [''alpha'', ''zeta'']
          = (example_world\<lparr>nodes := (nodes example_world)(toml_file ''/ws'' \<mapsto> File (Toml_dump t'))\<rparr>,
             [Pyproject_updated (toml_file ''/ws'')])"
    and s: "stored_first_party t'
              = Inr (PList (map PStr (sorted_list_of_set
                  (set [''zeta'', ''mine''] \<union> set [''alpha'', ''zeta'']))))"
    and k: "count_list (sorted_list_of_set (set [''zeta'', ''mine''] \<union> set [''alpha'', ''zeta'']))
              ''zeta'' = 1"
    using z by blast
  have e: "\<exists>t'. nodes (fst (update_pyproject_toml example_world ''/ws'' [''alpha'', ''zeta'']))
               (toml_file ''/ws'') = Some (File (Toml_dump t'))
            \<and> stored_first_party t'
                 = Inr (PList [PStr ''alpha'', PStr ''mine'', PStr ''zeta''])"
    using s unfolding u L by (intro exI [of _ t']) simp
  have k': "count_list [''alpha'', ''mine'', ''zeta''] ''zeta'' = 1"
    using k unfolding L .
  show ?thesis using a b c L e k' by (intro conjI)
qed

subsection \<open>Running the writers again\<close>







subsection \<open>Running the program again\<close>






end
